theory Spec2Isabelle
  imports Main "HOL-Library.Word"
begin

section \<open>Data model of contracts/MedicineRegistry.sol\<close>

text \<open>
  Solidity value types: an \<open>address\<close> is a 160-bit word, \<open>bytes32\<close> a 256-bit word.
  A \<open>uint256\<close> is a natural number; the contract is compiled with checked arithmetic
  (pragma 0.8.20), so the two increments of the source (\<open>verifiedCount++\<close>,
  \<open>nonce++\<close>) revert with a panic at \<open>max_uint256\<close> instead of wrapping.
\<close>

type_synonym address = "160 word"
type_synonym bytes32 = "256 word"
type_synonym uint256 = nat

definition max_uint256 :: uint256 where
  "max_uint256 = 2 ^ 256 - 1"

datatype SupplyChainRole = NONE | TRANSPORTER | SUPPLIER | DISTRIBUTOR | WHOLESALER | RETAILER

record SupplyChainParticipant =
  participantAddress :: address
  role :: SupplyChainRole
  hasVerified :: bool
  verifiedAt :: uint256
  location :: string
  additionalData :: string

record MedicineBatch =
  manufacturer :: address
  batchId :: string
  drugName :: string
  ingredients :: string
  expiryDate :: uint256
  registeredAt :: uint256
  channelId :: bytes32
  supplyChainParticipants :: "SupplyChainParticipant list"
  isParticipant :: "address \<Rightarrow> bool"
  totalParticipants :: uint256
  verifiedCount :: uint256
  rewardClaimed :: bool
  rewardClaimedBy :: address
  rewardClaimedAt :: uint256
  exists :: bool

text \<open>The field \<open>id\<close> of \<open>StateChannel\<close> is named \<open>id_ch\<close> (\<open>id\<close> is the identity of HOL).\<close>

record StateChannel =
  id_ch :: bytes32
  participants :: "address list"
  nonce :: uint256
  isOpen :: bool
  openedAt :: uint256
  closedAt :: uint256

text \<open>
  \<open>BatchData\<close> is the element type of the decoded settlement payload; its fields carry
  the prefix of the source's local variable \<open>data\<close>, since \<open>MedicineBatch\<close> has fields of
  the same names.
\<close>

record BatchData =
  data_batchId :: string
  data_drugName :: string
  data_ingredients :: string
  data_expiryDate :: uint256
  data_supplyChainAddresses :: "address list"
  data_supplyChainRoles :: "SupplyChainRole list"

datatype role_id = DEFAULT_ADMIN_ROLE | MANUFACTURER_ROLE | VERIFIER_ROLE | CHANNEL_ROLE

datatype event =
    BatchRegistered string address bytes32 uint256 uint256
  | SupplyChainVerification string address SupplyChainRole uint256 string
  | CustomerRewardClaimed string address uint256 uint256
  | ChannelOpened bytes32 "address list"
  | ChannelClosed bytes32 uint256
  | BatchSettled string bytes32
  | RoleGranted role_id address address
  | RoleRevoked role_id address address

text \<open>
  A failed \<open>require\<close> is \<open>Revert\<close> with the message of the source. The other errors are
  those of the compiler and of the inherited OpenZeppelin contracts: an arithmetic or
  index panic, a payload that \<open>abi.decode\<close> rejects, a signature that \<open>ECDSA.recover\<close>
  rejects, a caller without the role \<open>onlyRole\<close> asks for, and a revert raised by the
  token contract during \<open>mint\<close>.
\<close>

datatype error =
    Revert string
  | Panic
  | AbiDecodeError
  | ECDSAInvalidSignature
  | AccessControlUnauthorizedAccount address role_id
  | AccessControlBadConfirmation
  | MintReverted

text \<open>
  The storage of the contract. Solidity mappings are total: a key never written reads as
  the zero value of its type. The mappings \<open>pendingRewards\<close> and \<open>lastVerification\<close> are
  declared by the source but never read or written, and are left out; \<open>roles\<close> is the
  storage of the inherited \<open>AccessControl\<close>; \<open>events\<close> is the log, newest last.
\<close>

record Registry =
  batches :: "string \<Rightarrow> MedicineBatch"
  channels :: "bytes32 \<Rightarrow> StateChannel"
  batchParticipantsList :: "string \<Rightarrow> address list"
  batchParticipants :: "string \<Rightarrow> address \<Rightarrow> SupplyChainParticipant"
  roles :: "role_id \<Rightarrow> address \<Rightarrow> bool"
  events :: "event list"

definition zero_participant :: SupplyChainParticipant where
  "zero_participant =
     \<lparr>participantAddress = 0, role = NONE, hasVerified = False, verifiedAt = 0,
      location = [], additionalData = []\<rparr>"

definition zero_batch :: MedicineBatch where
  "zero_batch =
     \<lparr>manufacturer = 0, batchId = [], drugName = [], ingredients = [], expiryDate = 0,
      registeredAt = 0, channelId = 0, supplyChainParticipants = [],
      isParticipant = (\<lambda>_. False), totalParticipants = 0, verifiedCount = 0,
      rewardClaimed = False, rewardClaimedBy = 0, rewardClaimedAt = 0, exists = False\<rparr>"

definition zero_channel :: StateChannel where
  "zero_channel =
     \<lparr>id_ch = 0, participants = [], nonce = 0, isOpen = False, openedAt = 0, closedAt = 0\<rparr>"

text \<open>
  The environment of one transaction: \<open>msg.sender\<close>, \<open>block.timestamp\<close>, and the
  behaviour of the external token contract behind \<open>IMediToken\<close>. The token is code
  outside the registry: \<open>mediToken_mint e st to amount\<close> tells whether its \<open>mint\<close>
  returns (\<open>True\<close>) or reverts (\<open>False\<close>) when it is called while the registry's storage
  is \<open>st\<close>, which it can read through the registry's public getters.
\<close>

record env =
  msg_sender :: address
  block_timestamp :: uint256
  mediToken_mint :: "Registry \<Rightarrow> address \<Rightarrow> uint256 \<Rightarrow> bool"

definition CUSTOMER_REWARD :: uint256 where
  "CUSTOMER_REWARD = 10 ^ 18"

definition emit :: "event \<Rightarrow> Registry \<Rightarrow> Registry" where
  "emit ev s = s\<lparr>events := events s @ [ev]\<rparr>"

section \<open>Operations\<close>

definition hasRole :: "Registry \<Rightarrow> role_id \<Rightarrow> address \<Rightarrow> bool" where
  "hasRole s r a = roles s r a"

text \<open>The constructor: the deployer receives the three roles.\<close>

definition constructor :: "address \<Rightarrow> Registry" where
  "constructor deployer =
     \<lparr>batches = (\<lambda>_. zero_batch), channels = (\<lambda>_. zero_channel),
      batchParticipantsList = (\<lambda>_. []), batchParticipants = (\<lambda>_ _. zero_participant),
      roles = (\<lambda>r a. a = deployer \<and> r \<in> {DEFAULT_ADMIN_ROLE, MANUFACTURER_ROLE, CHANNEL_ROLE}),
      events = [RoleGranted DEFAULT_ADMIN_ROLE deployer deployer,
                RoleGranted MANUFACTURER_ROLE deployer deployer,
                RoleGranted CHANNEL_ROLE deployer deployer]\<rparr>"

definition isChannelParticipant :: "Registry \<Rightarrow> bytes32 \<Rightarrow> address \<Rightarrow> bool" where
  "isChannelParticipant s cid a = (a \<in> set (participants (channels s cid)))"

text \<open>
  The loop of \<open>registerBatchWithSupplyChain\<close> over \<open>_participants\<close> and \<open>_roles\<close>, which
  have the same length when the loop is entered; reading \<open>_roles[i]\<close> past its end
  would be an index panic.
\<close>

fun addParticipants ::
  "string \<Rightarrow> address list \<Rightarrow> SupplyChainRole list \<Rightarrow> Registry \<Rightarrow> error + Registry" where
  "addParticipants bid [] rs s = Inr s"
| "addParticipants bid (p # ps) rs s =
     (if p = 0 then Inl (Revert ''Invalid participant address'')
      else if isParticipant (batches s bid) p then Inl (Revert ''Duplicate participant'')
      else (case rs of
          [] \<Rightarrow> Inl Panic
        | r # rs' \<Rightarrow>
            let participant = zero_participant\<lparr>participantAddress := p, role := r,
                                hasVerified := False, verifiedAt := 0\<rparr>;
                newBatch = batches s bid;
                newBatch' = newBatch\<lparr>supplyChainParticipants :=
                                        supplyChainParticipants newBatch @ [participant],
                                      isParticipant := (isParticipant newBatch)(p := True)\<rparr>
            in addParticipants bid ps rs'
                 (s\<lparr>batches := (batches s)(bid := newBatch'),
                    batchParticipants := (batchParticipants s)
                      (bid := (batchParticipants s bid)(p := participant))\<rparr>)))"

definition registerBatchWithSupplyChain ::
  "env \<Rightarrow> string \<Rightarrow> string \<Rightarrow> string \<Rightarrow> uint256 \<Rightarrow> address list \<Rightarrow> SupplyChainRole list \<Rightarrow>
   bytes32 \<Rightarrow> Registry \<Rightarrow> error + Registry" where
  "registerBatchWithSupplyChain e bid dn ing expiry ps rs cid s =
     (if exists (batches s bid) then Inl (Revert ''Batch already exists'')
      else if \<not> expiry > block_timestamp e then Inl (Revert ''Expiry date must be in future'')
      else if length ps \<noteq> length rs then Inl (Revert ''Participants and roles mismatch'')
      else if \<not> length ps > 0 then Inl (Revert ''At least one participant required'')
      else
        let newBatch = (batches s bid)
              \<lparr>manufacturer := msg_sender e, batchId := bid, drugName := dn,
               ingredients := ing, expiryDate := expiry,
               registeredAt := block_timestamp e, channelId := cid,
               totalParticipants := length ps, verifiedCount := 0,
               rewardClaimed := False, exists := True\<rparr>;
            s1 = s\<lparr>batches := (batches s)(bid := newBatch),
                   batchParticipantsList := (batchParticipantsList s)(bid := ps)\<rparr>
        in (case addParticipants bid ps rs s1 of
              Inl err \<Rightarrow> Inl err
            | Inr s2 \<Rightarrow>
                Inr (emit (BatchRegistered bid (msg_sender e) cid (block_timestamp e)
                            (length ps)) s2)))"

text \<open>The loop of \<open>settleChannel\<close> over the decoded payload.\<close>

fun settleLoop :: "env \<Rightarrow> bytes32 \<Rightarrow> BatchData list \<Rightarrow> Registry \<Rightarrow> error + Registry" where
  "settleLoop e cid [] s = Inr s"
| "settleLoop e cid (d # ds) s =
     (if \<not> exists (batches s (data_batchId d)) then
        (case registerBatchWithSupplyChain e (data_batchId d) (data_drugName d)
                (data_ingredients d) (data_expiryDate d) (data_supplyChainAddresses d)
                (data_supplyChainRoles d) cid s of
           Inl err \<Rightarrow> Inl err
         | Inr s' \<Rightarrow> settleLoop e cid ds (emit (BatchSettled (data_batchId d) cid) s'))
      else settleLoop e cid ds s)"

text \<open>
  \<open>settleChannel\<close>. The bytes \<open>_finalState\<close> are given by what \<open>abi.decode\<close> makes of them
  (\<open>None\<close> when it reverts), and \<open>_signature\<close> by the address that \<open>ECDSA.recover\<close>
  returns for it on the hash of \<open>_finalState\<close> (\<open>None\<close> when it reverts). The modifier
  \<open>nonReentrant\<close> lets every call at the top of a transaction pass.
\<close>

definition settleChannel ::
  "env \<Rightarrow> bytes32 \<Rightarrow> BatchData list option \<Rightarrow> address option \<Rightarrow> Registry \<Rightarrow> error + Registry" where
  "settleChannel e cid finalState signature s =
     (if \<not> isOpen (channels s cid) then Inl (Revert ''Channel not open'')
      else (case finalState of
          None \<Rightarrow> Inl AbiDecodeError
        | Some batchDataArray \<Rightarrow>
      (case signature of
          None \<Rightarrow> Inl ECDSAInvalidSignature
        | Some signer \<Rightarrow>
      if \<not> isChannelParticipant s cid signer then Inl (Revert ''Invalid signer'')
      else if \<not> hasRole s MANUFACTURER_ROLE signer then Inl (Revert ''Signer not a manufacturer'')
      else (case settleLoop e cid batchDataArray s of
          Inl err \<Rightarrow> Inl err
        | Inr s' \<Rightarrow>
            let channel = channels s' cid in
            if nonce channel = max_uint256 then Inl Panic
            else Inr (emit (ChannelClosed cid (block_timestamp e))
                   (s'\<lparr>channels := (channels s')
                        (cid := channel\<lparr>isOpen := False, closedAt := block_timestamp e,
                                        nonce := nonce channel + 1\<rparr>)\<rparr>))))))"

text \<open>
  The loop of \<open>verifySupplyChainTransfer\<close>: \<open>ps\<close> is the part of the participant array
  from index \<open>i\<close> on. The first entry of the caller is updated and the loop is left.
\<close>

fun verifyLoop ::
  "env \<Rightarrow> string \<Rightarrow> string \<Rightarrow> string \<Rightarrow> SupplyChainParticipant list \<Rightarrow> nat \<Rightarrow> Registry \<Rightarrow>
   error + Registry" where
  "verifyLoop e bid loc dat [] i s = Inr s"
| "verifyLoop e bid loc dat (p # ps) i s =
     (if participantAddress p = msg_sender e then
        (if hasVerified p then Inl (Revert ''Already verified'')
         else if verifiedCount (batches s bid) = max_uint256 then Inl Panic
         else
           let batch = batches s bid;
               entry = p\<lparr>hasVerified := True, verifiedAt := block_timestamp e,
                         location := loc, additionalData := dat\<rparr>;
               batch' = batch\<lparr>supplyChainParticipants := (supplyChainParticipants batch)[i := entry],
                              verifiedCount := verifiedCount batch + 1\<rparr>;
               mapped = (batchParticipants s bid (msg_sender e))
                          \<lparr>hasVerified := True, verifiedAt := block_timestamp e,
                           location := loc, additionalData := dat\<rparr>
           in Inr (emit (SupplyChainVerification bid (msg_sender e) (role entry)
                           (block_timestamp e) loc)
                    (s\<lparr>batches := (batches s)(bid := batch'),
                       batchParticipants := (batchParticipants s)
                         (bid := (batchParticipants s bid)(msg_sender e := mapped))\<rparr>)))
      else verifyLoop e bid loc dat ps (Suc i) s)"

text \<open>
  \<open>verifySupplyChainTransfer\<close>; \<open>signature\<close> is the address \<open>ECDSA.recover\<close> returns for
  \<open>_signature\<close> on the hash of \<open>(_batchId, msg.sender, _location, _additionalData)\<close>.
\<close>

definition verifySupplyChainTransfer ::
  "env \<Rightarrow> string \<Rightarrow> string \<Rightarrow> string \<Rightarrow> address option \<Rightarrow> Registry \<Rightarrow> error + Registry" where
  "verifySupplyChainTransfer e bid loc dat signature s =
     (let batch = batches s bid in
      if \<not> exists batch then Inl (Revert ''Batch not found'')
      else if \<not> isParticipant batch (msg_sender e) then Inl (Revert ''Not authorized participant'')
      else if rewardClaimed batch then Inl (Revert ''Batch already completed'')
      else (case signature of
          None \<Rightarrow> Inl ECDSAInvalidSignature
        | Some signer \<Rightarrow>
            if signer \<noteq> msg_sender e then Inl (Revert ''Invalid signature'')
            else verifyLoop e bid loc dat (supplyChainParticipants batch) 0 s))"

definition claimCustomerReward :: "env \<Rightarrow> string \<Rightarrow> Registry \<Rightarrow> error + Registry" where
  "claimCustomerReward e bid s =
     (let batch = batches s bid in
      if \<not> exists batch then Inl (Revert ''Batch not found'')
      else if rewardClaimed batch then Inl (Revert ''Reward already claimed'')
      else if verifiedCount batch \<noteq> totalParticipants batch
        then Inl (Revert ''Supply chain verification incomplete'')
      else if isParticipant batch (msg_sender e)
        then Inl (Revert ''Supply chain participants cannot claim rewards'')
      else
        let s1 = s\<lparr>batches := (batches s)
                    (bid := batch\<lparr>rewardClaimed := True, rewardClaimedBy := msg_sender e,
                                  rewardClaimedAt := block_timestamp e\<rparr>)\<rparr>
        in if \<not> mediToken_mint e s1 (msg_sender e) CUSTOMER_REWARD then Inl MintReverted
           else Inr (emit (CustomerRewardClaimed bid (msg_sender e) CUSTOMER_REWARD
                             (block_timestamp e)) s1))"

definition isBatchReadyForCustomer :: "string \<Rightarrow> Registry \<Rightarrow> bool" where
  "isBatchReadyForCustomer bid s =
     (let batch = batches s bid in
      exists batch \<and> \<not> rewardClaimed batch \<and> verifiedCount batch = totalParticipants batch)"

definition getBatchSupplyChainStatus ::
  "string \<Rightarrow> Registry \<Rightarrow> error + (uint256 \<times> uint256 \<times> bool \<times> address)" where
  "getBatchSupplyChainStatus bid s =
     (let batch = batches s bid in
      if \<not> exists batch then Inl (Revert ''Batch not found'')
      else Inr (totalParticipants batch, verifiedCount batch, rewardClaimed batch,
                rewardClaimedBy batch))"

definition getParticipantDetails ::
  "string \<Rightarrow> address \<Rightarrow> Registry \<Rightarrow>
   error + (SupplyChainRole \<times> bool \<times> uint256 \<times> string \<times> string)" where
  "getParticipantDetails bid a s =
     (if \<not> exists (batches s bid) then Inl (Revert ''Batch not found'')
      else
        let participant = batchParticipants s bid a
        in Inr (role participant, hasVerified participant, verifiedAt participant,
                location participant, additionalData participant))"

definition openChannel :: "env \<Rightarrow> bytes32 \<Rightarrow> address list \<Rightarrow> Registry \<Rightarrow> error + Registry" where
  "openChannel e cid ps s =
     (if \<not> hasRole s CHANNEL_ROLE (msg_sender e)
        then Inl (AccessControlUnauthorizedAccount (msg_sender e) CHANNEL_ROLE)
      else if isOpen (channels s cid) then Inl (Revert ''Channel already open'')
      else Inr (emit (ChannelOpened cid ps)
             (s\<lparr>channels := (channels s)
                  (cid := \<lparr>id_ch = cid, participants = ps, nonce = 0, isOpen = True,
                           openedAt = block_timestamp e, closedAt = 0\<rparr>)\<rparr>)))"

definition closeChannel :: "env \<Rightarrow> bytes32 \<Rightarrow> Registry \<Rightarrow> error + Registry" where
  "closeChannel e cid s =
     (if \<not> hasRole s CHANNEL_ROLE (msg_sender e)
        then Inl (AccessControlUnauthorizedAccount (msg_sender e) CHANNEL_ROLE)
      else if \<not> isOpen (channels s cid) then Inl (Revert ''Channel not open'')
      else Inr (emit (ChannelClosed cid (block_timestamp e))
             (s\<lparr>channels := (channels s)
                  (cid := (channels s cid)\<lparr>isOpen := False,
                                            closedAt := block_timestamp e\<rparr>)\<rparr>)))"

text \<open>
  The role administration the contract inherits from OpenZeppelin's \<open>AccessControl\<close>
  (library code): every role is administered by \<open>DEFAULT_ADMIN_ROLE\<close>.
\<close>

definition grantRole :: "env \<Rightarrow> role_id \<Rightarrow> address \<Rightarrow> Registry \<Rightarrow> error + Registry" where
  "grantRole e r a s =
     (if \<not> hasRole s DEFAULT_ADMIN_ROLE (msg_sender e)
        then Inl (AccessControlUnauthorizedAccount (msg_sender e) DEFAULT_ADMIN_ROLE)
      else if hasRole s r a then Inr s
      else Inr (emit (RoleGranted r a (msg_sender e))
             (s\<lparr>roles := (roles s)(r := (roles s r)(a := True))\<rparr>)))"

definition revokeRole :: "env \<Rightarrow> role_id \<Rightarrow> address \<Rightarrow> Registry \<Rightarrow> error + Registry" where
  "revokeRole e r a s =
     (if \<not> hasRole s DEFAULT_ADMIN_ROLE (msg_sender e)
        then Inl (AccessControlUnauthorizedAccount (msg_sender e) DEFAULT_ADMIN_ROLE)
      else if \<not> hasRole s r a then Inr s
      else Inr (emit (RoleRevoked r a (msg_sender e))
             (s\<lparr>roles := (roles s)(r := (roles s r)(a := False))\<rparr>)))"

definition renounceRole :: "env \<Rightarrow> role_id \<Rightarrow> address \<Rightarrow> Registry \<Rightarrow> error + Registry" where
  "renounceRole e r callerConfirmation s =
     (if callerConfirmation \<noteq> msg_sender e then Inl AccessControlBadConfirmation
      else if \<not> hasRole s r callerConfirmation then Inr s
      else Inr (emit (RoleRevoked r callerConfirmation (msg_sender e))
             (s\<lparr>roles := (roles s)(r := (roles s r)(callerConfirmation := False))\<rparr>)))"

section \<open>The external interface and transactions\<close>

text \<open>
  The state-changing functions a transaction can call: the \<open>external\<close> functions of the
  contract and the inherited role administration. \<open>registerBatchWithSupplyChain\<close> is
  declared \<open>internal\<close> and is therefore not among them.
\<close>

datatype call =
    SettleChannel bytes32 "BatchData list option" "address option"
  | VerifySupplyChainTransfer string string string "address option"
  | ClaimCustomerReward string
  | OpenChannel bytes32 "address list"
  | CloseChannel bytes32
  | GrantRole role_id address
  | RevokeRole role_id address
  | RenounceRole role_id address

fun exec :: "env \<Rightarrow> call \<Rightarrow> Registry \<Rightarrow> error + Registry" where
  "exec e (SettleChannel cid finalState signature) s = settleChannel e cid finalState signature s"
| "exec e (VerifySupplyChainTransfer bid loc dat signature) s =
     verifySupplyChainTransfer e bid loc dat signature s"
| "exec e (ClaimCustomerReward bid) s = claimCustomerReward e bid s"
| "exec e (OpenChannel cid ps) s = openChannel e cid ps s"
| "exec e (CloseChannel cid) s = closeChannel e cid s"
| "exec e (GrantRole r a) s = grantRole e r a s"
| "exec e (RevokeRole r a) s = revokeRole e r a s"
| "exec e (RenounceRole r a) s = renounceRole e r a s"

text \<open>A transaction that reverts leaves the storage as it was.\<close>

definition transact :: "Registry \<Rightarrow> env \<times> call \<Rightarrow> Registry" where
  "transact s t = (case exec (fst t) (snd t) s of Inl err \<Rightarrow> s | Inr s' \<Rightarrow> s')"

definition run :: "address \<Rightarrow> (env \<times> call) list \<Rightarrow> Registry" where
  "run deployer ts = foldl transact (constructor deployer) ts"

section \<open>Closed forms and invariants\<close>

text \<open>
  The definitions from here on are not functions of the contract. They name the storage
  that a loop of the contract leaves behind and the invariant of the storages the
  contract can reach.
\<close>

definition new_participant :: "address \<Rightarrow> SupplyChainRole \<Rightarrow> SupplyChainParticipant" where
  "new_participant p r =
     \<lparr>participantAddress = p, role = r, hasVerified = False, verifiedAt = 0,
      location = [], additionalData = []\<rparr>"

definition addedBatch :: "MedicineBatch \<Rightarrow> address list \<Rightarrow> SupplyChainRole list \<Rightarrow> MedicineBatch" where
  "addedBatch b ps rs =
     b\<lparr>supplyChainParticipants := supplyChainParticipants b @ map2 new_participant ps rs,
       isParticipant := (\<lambda>a. isParticipant b a \<or> a \<in> set ps)\<rparr>"

definition addedMap ::
  "(address \<Rightarrow> SupplyChainParticipant) \<Rightarrow> address list \<Rightarrow> SupplyChainRole list \<Rightarrow>
   address \<Rightarrow> SupplyChainParticipant" where
  "addedMap m ps rs =
     (\<lambda>a. case map_of (zip ps rs) a of None \<Rightarrow> m a | Some r \<Rightarrow> new_participant a r)"

definition participants_ok :: "MedicineBatch \<Rightarrow> address list \<Rightarrow> bool" where
  "participants_ok b ps = (0 \<notin> set ps \<and> distinct ps \<and> (\<forall>p \<in> set ps. \<not> isParticipant b p))"

definition registered ::
  "env \<Rightarrow> string \<Rightarrow> string \<Rightarrow> string \<Rightarrow> uint256 \<Rightarrow> address list \<Rightarrow> SupplyChainRole list \<Rightarrow>
   bytes32 \<Rightarrow> Registry \<Rightarrow> Registry" where
  "registered e bid dn ing expiry ps rs cid s =
     s\<lparr>batches := (batches s)(bid := addedBatch ((batches s bid)
              \<lparr>manufacturer := msg_sender e, batchId := bid, drugName := dn,
               ingredients := ing, expiryDate := expiry,
               registeredAt := block_timestamp e, channelId := cid,
               totalParticipants := length ps, verifiedCount := 0,
               rewardClaimed := False, exists := True\<rparr>) ps rs),
       batchParticipantsList := (batchParticipantsList s)(bid := ps),
       batchParticipants := (batchParticipants s)(bid := addedMap (batchParticipants s bid) ps rs),
       events := events s @ [BatchRegistered bid (msg_sender e) cid (block_timestamp e) (length ps)]\<rparr>"

text \<open>
  The invariant of one batch \<open>b\<close> and its row \<open>m\<close> of \<open>batchParticipants\<close>: a batch
  that does not exist is all zero; the participant array has distinct addresses, which
  are exactly the addresses flagged by \<open>isParticipant\<close>; the two counters count the
  array and its verified entries; the mapping row repeats the array entries and is zero
  elsewhere; an entry that has not verified carries no time, location or data.
\<close>

definition batch_inv :: "MedicineBatch \<Rightarrow> (address \<Rightarrow> SupplyChainParticipant) \<Rightarrow> bool" where
  "batch_inv b m =
     (let ps = supplyChainParticipants b in
      (\<not> exists b \<longrightarrow> b = zero_batch) \<and>
      distinct (map participantAddress ps) \<and>
      (\<forall>a. isParticipant b a = (a \<in> participantAddress ` set ps)) \<and>
      totalParticipants b = length ps \<and>
      verifiedCount b = length (filter hasVerified ps) \<and>
      (\<forall>p \<in> set ps. m (participantAddress p) = p) \<and>
      (\<forall>a. \<not> isParticipant b a \<longrightarrow> m a = zero_participant) \<and>
      (\<forall>p \<in> set ps. \<not> hasVerified p \<longrightarrow>
         verifiedAt p = 0 \<and> location p = [] \<and> additionalData p = []))"

definition registry_inv :: "Registry \<Rightarrow> bool" where
  "registry_inv s =
     ((\<forall>bid. batch_inv (batches s bid) (batchParticipants s bid)) \<and>
      (\<forall>cid. isOpen (channels s cid) \<longrightarrow> nonce (channels s cid) = 0))"

text \<open>The record a registration of entry \<open>d\<close> creates at an id that was absent.\<close>

definition new_batch :: "env \<Rightarrow> bytes32 \<Rightarrow> BatchData \<Rightarrow> MedicineBatch" where
  "new_batch e cid d =
     \<lparr>manufacturer = msg_sender e, batchId = data_batchId d, drugName = data_drugName d,
      ingredients = data_ingredients d, expiryDate = data_expiryDate d,
      registeredAt = block_timestamp e, channelId = cid,
      supplyChainParticipants =
        map2 new_participant (data_supplyChainAddresses d) (data_supplyChainRoles d),
      isParticipant = (\<lambda>a. a \<in> set (data_supplyChainAddresses d)),
      totalParticipants = length (data_supplyChainAddresses d), verifiedCount = 0,
      rewardClaimed = False, rewardClaimedBy = 0, rewardClaimedAt = 0, exists = True\<rparr>"

text \<open>The preconditions of the registration that depend on the entry alone.\<close>

definition entry_ok :: "env \<Rightarrow> BatchData \<Rightarrow> bool" where
  "entry_ok e d =
     (block_timestamp e < data_expiryDate d \<and>
      length (data_supplyChainAddresses d) = length (data_supplyChainRoles d) \<and>
      data_supplyChainAddresses d \<noteq> [] \<and>
      0 \<notin> set (data_supplyChainAddresses d) \<and>
      distinct (data_supplyChainAddresses d))"

definition verified_entry ::
  "env \<Rightarrow> string \<Rightarrow> string \<Rightarrow> SupplyChainParticipant \<Rightarrow> SupplyChainParticipant" where
  "verified_entry e loc dat p =
     p\<lparr>hasVerified := True, verifiedAt := block_timestamp e, location := loc,
       additionalData := dat\<rparr>"

definition verified ::
  "env \<Rightarrow> string \<Rightarrow> string \<Rightarrow> string \<Rightarrow> nat \<Rightarrow> Registry \<Rightarrow> Registry" where
  "verified e bid loc dat j s =
     emit (SupplyChainVerification bid (msg_sender e)
             (role (supplyChainParticipants (batches s bid) ! j)) (block_timestamp e) loc)
       (s\<lparr>batches := (batches s)
            (bid := (batches s bid)
               \<lparr>supplyChainParticipants := (supplyChainParticipants (batches s bid))
                  [j := verified_entry e loc dat (supplyChainParticipants (batches s bid) ! j)],
                verifiedCount := verifiedCount (batches s bid) + 1\<rparr>),
          batchParticipants := (batchParticipants s)
            (bid := (batchParticipants s bid)
               (msg_sender e := verified_entry e loc dat (batchParticipants s bid (msg_sender e))))\<rparr>)"

text \<open>
  The batch at \<open>bid\<close> after a settlement of the list \<open>ds\<close>: the old record when the id
  was present, else the record made from the first entry of the list with this id, else
  the (absent) old record.
\<close>

definition settled_batch ::
  "env \<Rightarrow> bytes32 \<Rightarrow> BatchData list \<Rightarrow> Registry \<Rightarrow> string \<Rightarrow> MedicineBatch" where
  "settled_batch e cid ds s bid =
     (if exists (batches s bid) then batches s bid
      else (case find (\<lambda>d. data_batchId d = bid) ds of
              None \<Rightarrow> batches s bid
            | Some d \<Rightarrow> new_batch e cid d))"

text \<open>
  The number of transactions of a sequence, run from storage \<open>s\<close>, that are sent by \<open>a\<close>
  and change \<open>verifiedCount\<close> of batch \<open>bid\<close>.
\<close>

fun increments :: "Registry \<Rightarrow> (env \<times> call) list \<Rightarrow> string \<Rightarrow> address \<Rightarrow> nat" where
  "increments s [] bid a = 0"
| "increments s (t # ts) bid a =
     (if msg_sender (fst t) = a \<and>
         verifiedCount (batches (transact s t) bid) \<noteq> verifiedCount (batches s bid)
      then 1 else 0) + increments (transact s t) ts bid a"

section \<open>Scenarios\<close>

text \<open>
  Concrete transactions and storages at which the theorems are instantiated: the
  deployer is address 1 and opens channel 7 with itself as the only channel participant;
  the token contract lets every \<open>mint\<close> return.
\<close>

definition always_mints :: "Registry \<Rightarrow> address \<Rightarrow> uint256 \<Rightarrow> bool" where
  "always_mints st to amount = True"

definition env_at :: "address \<Rightarrow> uint256 \<Rightarrow> env" where
  "env_at a t = \<lparr>msg_sender = a, block_timestamp = t, mediToken_mint = always_mints\<rparr>"

definition batch_B1 :: BatchData where
  "batch_B1 = \<lparr>data_batchId = ''B1'', data_drugName = ''Aspirin'', data_ingredients = ''ASA'',
     data_expiryDate = 100, data_supplyChainAddresses = [2], data_supplyChainRoles = [TRANSPORTER]\<rparr>"

definition verified_B1 :: Registry where
  "verified_B1 = run 1
     [(env_at 1 10, OpenChannel 7 [1]),
      (env_at 1 20, SettleChannel 7 (Some [batch_B1]) (Some 1)),
      (env_at 2 30, VerifySupplyChainTransfer ''B1'' ''Mumbai'' ''ok'' (Some 2))]"

definition mints_when_claimed :: "string \<Rightarrow> Registry \<Rightarrow> address \<Rightarrow> uint256 \<Rightarrow> bool" where
  "mints_when_claimed bid st to amount = rewardClaimed (batches st bid)"

definition opened_7 :: Registry where
  "opened_7 = run 1 [(env_at 1 10, OpenChannel 7 [1])]"

definition closed_7 :: Registry where
  "closed_7 = run 1 [(env_at 1 10, OpenChannel 7 [1]), (env_at 1 20, CloseChannel 7)]"

definition registered_B1 :: Registry where
  "registered_B1 = run 1
     [(env_at 1 10, OpenChannel 7 [1]),
      (env_at 1 20, SettleChannel 7 (Some [batch_B1]) (Some 1))]"

definition batch_N1 :: BatchData where
  "batch_N1 = \<lparr>data_batchId = ''N1'', data_drugName = ''Nystatin'', data_ingredients = ''NYS'',
     data_expiryDate = 100, data_supplyChainAddresses = [4], data_supplyChainRoles = [NONE]\<rparr>"

definition registered_N1 :: Registry where
  "registered_N1 = run 1
     [(env_at 1 10, OpenChannel 7 [1]),
      (env_at 1 20, SettleChannel 7 (Some [batch_N1]) (Some 1))]"

definition batch_X1 :: BatchData where
  "batch_X1 = \<lparr>data_batchId = ''X1'', data_drugName = ''Ibuprofen'', data_ingredients = ''IBU'',
     data_expiryDate = 5, data_supplyChainAddresses = [3], data_supplyChainRoles = [SUPPLIER]\<rparr>"

definition batch_Z1 :: BatchData where
  "batch_Z1 = \<lparr>data_batchId = ''Z1'', data_drugName = ''Zinc'', data_ingredients = ''Zn'',
     data_expiryDate = 100, data_supplyChainAddresses = [2, 2],
     data_supplyChainRoles = [TRANSPORTER, SUPPLIER]\<rparr>"

definition batch_B2 :: BatchData where
  "batch_B2 = \<lparr>data_batchId = ''B2'', data_drugName = ''Medicine'', data_ingredients = ''Ingredients'',
     data_expiryDate = 100,
     data_supplyChainAddresses =
       [1, 2, 3, 4, 5, 6, 7, 8, 9, 10, 11, 12, 13, 14, 15, 16, 17, 18, 19, 20, 21],
     data_supplyChainRoles = replicate 21 TRANSPORTER\<rparr>"

definition batch_N1x :: BatchData where
  "batch_N1x = \<lparr>data_batchId = ''N1'', data_drugName = ''Neomycin'', data_ingredients = ''NEO'',
     data_expiryDate = 5, data_supplyChainAddresses = [5], data_supplyChainRoles = [RETAILER]\<rparr>"

definition batch_B1x :: BatchData where
  "batch_B1x = \<lparr>data_batchId = ''B1'', data_drugName = ''Aspirin'', data_ingredients = ''ASA'',
     data_expiryDate = 100, data_supplyChainAddresses = [], data_supplyChainRoles = []\<rparr>"

definition settled_N1_opened_8 :: Registry where
  "settled_N1_opened_8 = run 1
     [(env_at 1 10, OpenChannel 7 [1]),
      (env_at 1 20, SettleChannel 7 (Some [batch_N1]) (Some 1)),
      (env_at 1 25, OpenChannel 8 [1])]"

definition claimed_B1 :: Registry where
  "claimed_B1 = run 1
     [(env_at 1 10, OpenChannel 7 [1]),
      (env_at 1 20, SettleChannel 7 (Some [batch_B1]) (Some 1)),
      (env_at 2 30, VerifySupplyChainTransfer ''B1'' ''Mumbai'' ''ok'' (Some 2)),
      (env_at 9 35, ClaimCustomerReward ''B1'')]"

section \<open>The registration\<close>

lemma addedBatch_Cons:
  "p \<notin> set ps \<Longrightarrow> addedBatch (b\<lparr>supplyChainParticipants := supplyChainParticipants b @ [new_participant p r],
                 isParticipant := (isParticipant b)(p := True)\<rparr>) ps rs
   = addedBatch b (p # ps) (r # rs)"
  by (auto simp: addedBatch_def fun_eq_iff)

lemma addedMap_Cons:
  "p \<notin> set ps \<Longrightarrow> length ps = length rs \<Longrightarrow> addedMap (m(p := new_participant p r)) ps rs = addedMap m (p # ps) (r # rs)"
  by (auto simp: addedMap_def fun_eq_iff split: option.splits dest: map_of_SomeD set_zip_leftD)

lemma addParticipants_iff:
  "length ps = length rs \<Longrightarrow>
   addParticipants bid ps rs s = Inr s' \<longleftrightarrow>
     participants_ok (batches s bid) ps \<and>
     s' = s\<lparr>batches := (batches s)(bid := addedBatch (batches s bid) ps rs),
            batchParticipants := (batchParticipants s)
              (bid := addedMap (batchParticipants s bid) ps rs)\<rparr>"
proof (induction ps rs arbitrary: s rule: list_induct2)
  case Nil
  show ?case by (auto simp: participants_ok_def addedBatch_def addedMap_def)
next
  case (Cons p ps r rs)
  have np: "zero_participant\<lparr>participantAddress := p, role := r, hasVerified := False, verifiedAt := 0\<rparr>
      = new_participant p r"
    by (simp add: zero_participant_def new_participant_def)
  show ?case
  proof (cases "p = 0 \<or> isParticipant (batches s bid) p")
    case True
    then show ?thesis by (auto simp: participants_ok_def)
  next
    case False
    let ?s1 = "s\<lparr>batches := (batches s)(bid := (batches s bid)\<lparr>supplyChainParticipants :=
                                        supplyChainParticipants (batches s bid) @ [new_participant p r],
                                      isParticipant := (isParticipant (batches s bid))(p := True)\<rparr>),
                    batchParticipants := (batchParticipants s)
                      (bid := (batchParticipants s bid)(p := new_participant p r))\<rparr>"
    have step: "addParticipants bid (p # ps) (r # rs) s = addParticipants bid ps rs ?s1"
      using False by (simp add: np Let_def)
    have ok: "participants_ok (batches ?s1 bid) ps \<longleftrightarrow> participants_ok (batches s bid) (p # ps)"
      using False by (auto simp: participants_ok_def)
    show ?thesis
    proof (cases "p \<in> set ps")
      case True
      then show ?thesis unfolding step Cons.IH by (auto simp: participants_ok_def)
    next
      case notin: False
      have eq: "?s1\<lparr>batches := (batches ?s1)(bid := addedBatch (batches ?s1 bid) ps rs),
            batchParticipants := (batchParticipants ?s1)
              (bid := addedMap (batchParticipants ?s1 bid) ps rs)\<rparr>
          = s\<lparr>batches := (batches s)(bid := addedBatch (batches s bid) (p # ps) (r # rs)),
            batchParticipants := (batchParticipants s)
              (bid := addedMap (batchParticipants s bid) (p # ps) (r # rs))\<rparr>"
        using addedBatch_Cons[OF notin, of "batches s bid" r rs]
              addedMap_Cons[OF notin Cons.hyps, of "batchParticipants s bid" r]
        by simp
      show ?thesis
        unfolding step Cons.IH ok eq ..
    qed
  qed
qed

lemma addParticipants_ok:
  "length ps = length rs \<Longrightarrow> participants_ok (batches s bid) ps \<Longrightarrow>
   addParticipants bid ps rs s =
     Inr (s\<lparr>batches := (batches s)(bid := addedBatch (batches s bid) ps rs),
            batchParticipants := (batchParticipants s)
              (bid := addedMap (batchParticipants s bid) ps rs)\<rparr>)"
  by (simp add: addParticipants_iff)

lemma addParticipants_fail:
  "length ps = length rs \<Longrightarrow> \<not> participants_ok (batches s bid) ps \<Longrightarrow>
   \<exists>err. addParticipants bid ps rs s = Inl err"
  by (cases "addParticipants bid ps rs s") (simp_all add: addParticipants_iff)

lemma registerBatch_iff:
  "registerBatchWithSupplyChain e bid dn ing expiry ps rs cid s = Inr s' \<longleftrightarrow>
     \<not> exists (batches s bid) \<and> block_timestamp e < expiry \<and> length ps = length rs \<and> ps \<noteq> [] \<and>
     participants_ok (batches s bid) ps \<and> s' = registered e bid dn ing expiry ps rs cid s"
proof (cases "\<not> exists (batches s bid) \<and> block_timestamp e < expiry \<and> length ps = length rs \<and> ps \<noteq> []")
  case False
  then show ?thesis by (auto simp: registerBatchWithSupplyChain_def)
next
  case True
  then have len: "length ps = length rs" by simp
  let ?s1 = "s\<lparr>batches := (batches s)(bid := (batches s bid)
              \<lparr>manufacturer := msg_sender e, batchId := bid, drugName := dn,
               ingredients := ing, expiryDate := expiry,
               registeredAt := block_timestamp e, channelId := cid,
               totalParticipants := length ps, verifiedCount := 0,
               rewardClaimed := False, exists := True\<rparr>),
             batchParticipantsList := (batchParticipantsList s)(bid := ps)\<rparr>"
  have reg: "registerBatchWithSupplyChain e bid dn ing expiry ps rs cid s =
      (case addParticipants bid ps rs ?s1 of Inl err \<Rightarrow> Inl err
       | Inr s2 \<Rightarrow> Inr (emit (BatchRegistered bid (msg_sender e) cid (block_timestamp e)
                            (length ps)) s2))"
  proof -
    from True have "0 < length ps" "0 < length rs" by auto
    with True show ?thesis by (simp add: registerBatchWithSupplyChain_def Let_def)
  qed
  have pk: "participants_ok (batches ?s1 bid) ps \<longleftrightarrow> participants_ok (batches s bid) ps"
    by (simp add: participants_ok_def)
  show ?thesis
  proof (cases "participants_ok (batches s bid) ps")
    case ok: True
    show ?thesis
      unfolding reg using True ok addParticipants_ok[OF len, of ?s1 bid] pk
      by (auto simp: registered_def emit_def)
  next
    case bad: False
    show ?thesis
      unfolding reg using bad addParticipants_fail[OF len, of ?s1 bid] pk
      by auto
  qed
qed

section \<open>The invariant of the reachable storages\<close>

lemma inv_constructor: "registry_inv (constructor deployer)"
  by (simp add: registry_inv_def batch_inv_def constructor_def zero_batch_def zero_channel_def)

lemma map_addr_new: "length ps = length rs \<Longrightarrow> map participantAddress (map2 new_participant ps rs) = ps"
  by (induction ps rs rule: list_induct2) (simp_all add: new_participant_def)

lemma filter_verified_new: "filter hasVerified (map2 new_participant ps rs) = []"
  by (induction ps arbitrary: rs) (auto simp: new_participant_def split: list.splits simp: zip_Cons1)

lemma new_in_zip:
  "p \<in> set (map2 new_participant ps rs) \<Longrightarrow> \<exists>a r. (a, r) \<in> set (zip ps rs) \<and> p = new_participant a r"
  by auto

lemma batch_inv_new:
  assumes len: "length ps = length rs" and d: "distinct ps"
  shows "batch_inv (addedBatch (zero_batch
              \<lparr>manufacturer := sndr, batchId := bid, drugName := dn,
               ingredients := ing, expiryDate := expiry,
               registeredAt := now, channelId := cid,
               totalParticipants := length ps, verifiedCount := 0,
               rewardClaimed := False, exists := True\<rparr>) ps rs)
            (addedMap (\<lambda>_. zero_participant) ps rs)"
proof -
  have m: "addedMap (\<lambda>_. zero_participant) ps rs (participantAddress p) = p"
    if "p \<in> set (map2 new_participant ps rs)" for p
  proof -
    from new_in_zip[OF that] obtain a r where ar: "(a, r) \<in> set (zip ps rs)" "p = new_participant a r"
      by blast
    have "distinct (map fst (zip ps rs))" using len d by simp
    then have "map_of (zip ps rs) a = Some r" using ar(1) by (rule map_of_is_SomeI)
    then show ?thesis using ar(2) by (simp add: addedMap_def new_participant_def)
  qed
  have z: "addedMap (\<lambda>_. zero_participant) ps rs a = zero_participant" if "a \<notin> set ps" for a
  proof -
    have "map_of (zip ps rs) a = None" using that by (auto simp: map_of_eq_None_iff dest: set_zip_leftD)
    then show ?thesis by (simp add: addedMap_def)
  qed
  have nv: "\<not> hasVerified p \<and> verifiedAt p = 0 \<and> location p = [] \<and> additionalData p = []"
    if "p \<in> set (map2 new_participant ps rs)" for p
    using new_in_zip[OF that] by (auto simp: new_participant_def)
  let ?b = "addedBatch (zero_batch
              \<lparr>manufacturer := sndr, batchId := bid, drugName := dn,
               ingredients := ing, expiryDate := expiry,
               registeredAt := now, channelId := cid,
               totalParticipants := length ps, verifiedCount := 0,
               rewardClaimed := False, exists := True\<rparr>) ps rs"
  have sp: "supplyChainParticipants ?b = map2 new_participant ps rs"
    by (simp add: addedBatch_def zero_batch_def)
  have ip: "isParticipant ?b a = (a \<in> set ps)" for a
    by (simp add: addedBatch_def zero_batch_def)
  have ex: "exists ?b" "totalParticipants ?b = length ps" "verifiedCount ?b = 0"
    by (simp_all add: addedBatch_def)
  have addrs: "participantAddress ` set (map2 new_participant ps rs) = set ps"
    using map_addr_new[OF len] by (metis set_map)
  show ?thesis
    unfolding batch_inv_def Let_def sp
    apply (intro conjI)
    subgoal using ex by simp
    subgoal using map_addr_new[OF len] d by simp
    subgoal using ip addrs by simp
    subgoal using ex len by simp
    subgoal using ex filter_verified_new by simp
    subgoal using m by blast
    subgoal using z ip by blast
    subgoal using nv by blast
    done
qed

lemma zero_batch_participants_ok:
  "participants_ok zero_batch ps \<longleftrightarrow> 0 \<notin> set ps \<and> distinct ps"
  by (simp add: participants_ok_def zero_batch_def)

lemma inv_absent:
  "registry_inv s \<Longrightarrow> \<not> exists (batches s bid) \<Longrightarrow>
   batches s bid = zero_batch \<and> batchParticipants s bid = (\<lambda>_. zero_participant)"
  by (auto simp: registry_inv_def batch_inv_def Let_def zero_batch_def fun_eq_iff)

lemma inv_absent_fields:
  assumes "registry_inv s" "\<not> exists (batches s b)"
  shows "verifiedCount (batches s b) = 0" "\<not> rewardClaimed (batches s b)"
    "\<not> hasVerified (batchParticipants s b a)" "totalParticipants (batches s b) = 0"
    "\<not> isParticipant (batches s b) a"
  using inv_absent[OF assms] by (simp_all add: zero_batch_def zero_participant_def)

lemma registered_inv:
  assumes inv: "registry_inv s" and ne: "\<not> exists (batches s bid)"
    and len: "length ps = length rs" and ok: "participants_ok (batches s bid) ps"
  shows "registry_inv (registered e bid dn ing expiry ps rs cid s)"
proof -
  from inv_absent[OF inv ne] have z: "batches s bid = zero_batch"
    "batchParticipants s bid = (\<lambda>_. zero_participant)" by simp_all
  from ok have d: "distinct ps" by (simp add: participants_ok_def)
  show ?thesis
    using inv batch_inv_new[OF len d]
    by (simp add: registry_inv_def registered_def z)
qed

lemma registered_frame:
  "channels (registered e bid dn ing expiry ps rs cid s) = channels s"
  "roles (registered e bid dn ing expiry ps rs cid s) = roles s"
  "b \<noteq> bid \<Longrightarrow> batches (registered e bid dn ing expiry ps rs cid s) b = batches s b"
  "b \<noteq> bid \<Longrightarrow> batchParticipants (registered e bid dn ing expiry ps rs cid s) b = batchParticipants s b"
  by (simp_all add: registered_def)

lemma registered_new_batch:
  "batches s (data_batchId d) = zero_batch \<Longrightarrow>
   batches (registered e (data_batchId d) (data_drugName d) (data_ingredients d)
      (data_expiryDate d) (data_supplyChainAddresses d) (data_supplyChainRoles d) cid s)
     (data_batchId d) = new_batch e cid d"
  by (simp add: registered_def new_batch_def addedBatch_def zero_batch_def)

lemma emit_frame:
  "batches (emit ev s) = batches s" "channels (emit ev s) = channels s"
  "roles (emit ev s) = roles s" "batchParticipants (emit ev s) = batchParticipants s"
  "batchParticipantsList (emit ev s) = batchParticipantsList s"
  by (simp_all add: emit_def)

lemma emit_inv: "registry_inv (emit ev s) = registry_inv s"
  by (simp add: registry_inv_def emit_frame)

text \<open>What a successful run of the settlement loop leaves behind.\<close>

lemma settleLoop_frame:
  "registry_inv s \<Longrightarrow> settleLoop e cid ds s = Inr s' \<Longrightarrow>
   registry_inv s' \<and> channels s' = channels s \<and> roles s' = roles s \<and>
   (\<forall>b. exists (batches s b) \<longrightarrow>
        batches s' b = batches s b \<and> batchParticipants s' b = batchParticipants s b) \<and>
   (\<forall>b. \<not> exists (batches s b) \<longrightarrow>
        verifiedCount (batches s' b) = 0 \<and> \<not> rewardClaimed (batches s' b) \<and>
        (\<forall>a. \<not> hasVerified (batchParticipants s' b a)) \<and>
        (exists (batches s' b) \<longrightarrow> b \<in> data_batchId ` set ds))"
proof (induction ds arbitrary: s)
  case Nil
  then show ?case
    by (auto dest: inv_absent_fields)
next
  case (Cons d ds)
  show ?case
  proof (cases "exists (batches s (data_batchId d))")
    case True
    with Cons.prems have "settleLoop e cid ds s = Inr s'" by simp
    from Cons.IH[OF Cons.prems(1) this] show ?thesis by auto
  next
    case False
    let ?r = "registered e (data_batchId d) (data_drugName d) (data_ingredients d)
      (data_expiryDate d) (data_supplyChainAddresses d) (data_supplyChainRoles d) cid s"
    from False Cons.prems(2) obtain s1 where
      r: "registerBatchWithSupplyChain e (data_batchId d) (data_drugName d)
                (data_ingredients d) (data_expiryDate d) (data_supplyChainAddresses d)
                (data_supplyChainRoles d) cid s = Inr s1"
      and rest: "settleLoop e cid ds (emit (BatchSettled (data_batchId d) cid) s1) = Inr s'"
      by (auto split: sum.splits)
    from r have s1: "s1 = ?r" and len: "length (data_supplyChainAddresses d) = length (data_supplyChainRoles d)"
      and ok: "participants_ok (batches s (data_batchId d)) (data_supplyChainAddresses d)"
      by (simp_all add: registerBatch_iff)
    have inv1: "registry_inv (emit (BatchSettled (data_batchId d) cid) s1)"
      unfolding emit_inv s1 using registered_inv[OF Cons.prems(1) False len ok] .
    note ih = Cons.IH[OF inv1 rest]
    have z: "batches s (data_batchId d) = zero_batch" using inv_absent[OF Cons.prems(1) False] by simp
    have ex1: "exists (batches ?r (data_batchId d))"
      using registered_new_batch[OF z] by (simp add: new_batch_def)
    have vc1: "verifiedCount (batches ?r (data_batchId d)) = 0" "\<not> rewardClaimed (batches ?r (data_batchId d))"
      using registered_new_batch[OF z] by (simp_all add: new_batch_def)
    have bp1: "\<not> hasVerified (batchParticipants ?r (data_batchId d) a)" for a
      using inv_absent[OF Cons.prems(1) False]
      by (simp add: registered_def addedMap_def new_participant_def zero_participant_def split: option.splits)
    show ?thesis
    proof (intro conjI allI impI)
      show "registry_inv s'" using ih by simp
      show "channels s' = channels s" using ih by (simp add: emit_frame s1 registered_frame)
      show "roles s' = roles s" using ih by (simp add: emit_frame s1 registered_frame)
    next
      fix b assume b: "exists (batches s b)"
      then have ne: "b \<noteq> data_batchId d" using False by auto
      then have "exists (batches (emit (BatchSettled (data_batchId d) cid) s1) b)"
        using b by (simp add: emit_frame s1 registered_frame)
      with ih have "batches s' b = batches (emit (BatchSettled (data_batchId d) cid) s1) b"
        "batchParticipants s' b = batchParticipants (emit (BatchSettled (data_batchId d) cid) s1) b"
        by simp_all
      then show "batches s' b = batches s b" "batchParticipants s' b = batchParticipants s b"
        using ne by (simp_all add: emit_frame s1 registered_frame)
    next
      fix b assume b: "\<not> exists (batches s b)"
      have goal: "verifiedCount (batches s' b) = 0 \<and> \<not> rewardClaimed (batches s' b) \<and>
        (\<forall>a. \<not> hasVerified (batchParticipants s' b a)) \<and>
        (exists (batches s' b) \<longrightarrow> b \<in> data_batchId ` set (d # ds))"
      proof (cases "b = data_batchId d")
        case True
        then have "exists (batches (emit (BatchSettled (data_batchId d) cid) s1) b)"
          using ex1 by (simp add: emit_frame s1)
        with ih have "batches s' b = batches (emit (BatchSettled (data_batchId d) cid) s1) b"
          "batchParticipants s' b = batchParticipants (emit (BatchSettled (data_batchId d) cid) s1) b"
          by simp_all
        then show ?thesis using True vc1 bp1 by (simp add: emit_frame s1)
      next
        case ne: False
        then have "\<not> exists (batches (emit (BatchSettled (data_batchId d) cid) s1) b)"
          using b by (simp add: emit_frame s1 registered_frame)
        with ih show ?thesis by simp
      qed
      show "verifiedCount (batches s' b) = 0" using goal by simp
      show "\<not> rewardClaimed (batches s' b)" using goal by simp
      show "\<And>a. \<not> hasVerified (batchParticipants s' b a)" using goal by simp
      show "exists (batches s' b) \<Longrightarrow> b \<in> data_batchId ` set (d # ds)" using goal by simp
    qed
  qed
qed

section \<open>The verification loop\<close>

lemma verifyLoop_result:
  "verifyLoop e bid loc dat ps i s = Inr s' \<Longrightarrow>
   ps = drop i (supplyChainParticipants (batches s bid)) \<Longrightarrow>
   (msg_sender e \<notin> participantAddress ` set ps \<and> s' = s) \<or>
   (\<exists>j. i \<le> j \<and> j < length (supplyChainParticipants (batches s bid)) \<and>
        participantAddress (supplyChainParticipants (batches s bid) ! j) = msg_sender e \<and>
        \<not> hasVerified (supplyChainParticipants (batches s bid) ! j) \<and>
        verifiedCount (batches s bid) \<noteq> max_uint256 \<and>
        s' = verified e bid loc dat j s)"
proof (induction ps arbitrary: i)
  case Nil
  then show ?case by simp
next
  case (Cons p ps)
  let ?xs = "supplyChainParticipants (batches s bid)"
  from Cons.prems(2) have i: "i < length ?xs" and p: "p = ?xs ! i" and ps: "ps = drop (Suc i) ?xs"
    by (metis drop_eq_Nil2 linorder_not_le list.distinct(1),
        metis Cons_nth_drop_Suc drop_eq_Nil2 linorder_not_le list.distinct(1) list.inject,
        metis drop_Suc list.sel(3) tl_drop)
  show ?case
  proof (cases "participantAddress p = msg_sender e")
    case True
    with Cons.prems(1) have nv: "\<not> hasVerified p" and nm: "verifiedCount (batches s bid) \<noteq> max_uint256"
      by (auto split: if_splits)
    with Cons.prems(1) True have "s' = verified e bid loc dat i s"
      by (simp add: Let_def verified_def verified_entry_def p)
    then show ?thesis using i p True nv nm by auto
  next
    case False
    with Cons.prems(1) have "verifyLoop e bid loc dat ps (Suc i) s = Inr s'" by simp
    from Cons.IH[OF this ps] show ?thesis
    proof
      assume "msg_sender e \<notin> participantAddress ` set ps \<and> s' = s"
      then show ?thesis using False by auto
    next
      assume "\<exists>j. Suc i \<le> j \<and> j < length ?xs \<and>
        participantAddress (?xs ! j) = msg_sender e \<and> \<not> hasVerified (?xs ! j) \<and>
        verifiedCount (batches s bid) \<noteq> max_uint256 \<and> s' = verified e bid loc dat j s"
      then obtain j where "Suc i \<le> j" and rest: "j < length ?xs"
        "participantAddress (?xs ! j) = msg_sender e" "\<not> hasVerified (?xs ! j)"
        "verifiedCount (batches s bid) \<noteq> max_uint256" "s' = verified e bid loc dat j s"
        by blast
      then have "i \<le> j" by simp
      with rest show ?thesis by blast
    qed
  qed
qed

lemma verifyLoop_already:
  "distinct (map participantAddress ps) \<Longrightarrow> p \<in> set ps \<Longrightarrow> participantAddress p = msg_sender e \<Longrightarrow>
   hasVerified p \<Longrightarrow> verifyLoop e bid loc dat ps i s = Inl (Revert ''Already verified'')"
proof (induction ps arbitrary: i)
  case Nil
  then show ?case by simp
next
  case (Cons q ps)
  then show ?case by (cases "q = p") (auto simp: image_iff)
qed

lemma filter_update_count:
  "j < length xs \<Longrightarrow> \<not> P (xs ! j) \<Longrightarrow> P y \<Longrightarrow>
   length (filter P (xs[j := y])) = Suc (length (filter P xs))"
proof (induction xs arbitrary: j)
  case Nil
  then show ?case by simp
next
  case (Cons x xs)
  then show ?case by (cases j) auto
qed

lemma batch_inv_verified:
  assumes inv: "batch_inv b m" and ex: "exists b"
    and j: "j < length (supplyChainParticipants b)"
    and nv: "\<not> hasVerified (supplyChainParticipants b ! j)"
    and a: "participantAddress (supplyChainParticipants b ! j) = a"
  shows "batch_inv (b\<lparr>supplyChainParticipants := (supplyChainParticipants b)
                  [j := verified_entry e loc dat (supplyChainParticipants b ! j)],
                verifiedCount := verifiedCount b + 1\<rparr>)
           (m(a := verified_entry e loc dat (m a)))"
proof -
  let ?ps = "supplyChainParticipants b"
  let ?x = "verified_entry e loc dat (?ps ! j)"
  let ?ps' = "?ps[j := ?x]"
  from inv have d: "distinct (map participantAddress ?ps)"
    and ip: "\<And>c. isParticipant b c = (c \<in> participantAddress ` set ?ps)"
    and tp: "totalParticipants b = length ?ps"
    and vc: "verifiedCount b = length (filter hasVerified ?ps)"
    and mp: "\<And>p. p \<in> set ?ps \<Longrightarrow> m (participantAddress p) = p"
    and mz: "\<And>c. \<not> isParticipant b c \<Longrightarrow> m c = zero_participant"
    and un: "\<And>p. p \<in> set ?ps \<Longrightarrow> \<not> hasVerified p \<Longrightarrow>
         verifiedAt p = 0 \<and> location p = [] \<and> additionalData p = []"
    by (simp_all add: batch_inv_def Let_def)
  have xa: "participantAddress ?x = a" "hasVerified ?x" using a by (simp_all add: verified_entry_def)
  have maddr: "map participantAddress ?ps' = map participantAddress ?ps"
  proof -
    have "map participantAddress ?ps' = (map participantAddress ?ps)[j := participantAddress ?x]"
      by (rule map_update)
    also have "\<dots> = (map participantAddress ?ps)[j := map participantAddress ?ps ! j]"
      using xa(1) a j by simp
    also have "\<dots> = map participantAddress ?ps" by (rule list_update_id)
    finally show ?thesis .
  qed
  have ma: "m a = ?ps ! j" using mp[of "?ps ! j"] j a by simp
  have elems: "p = ?x \<or> (p \<in> set ?ps \<and> participantAddress p \<noteq> a)" if "p \<in> set ?ps'" for p
  proof -
    from that obtain k where k: "k < length ?ps" "p = ?ps' ! k"
      by (auto simp: in_set_conv_nth)
    show ?thesis
    proof (cases "k = j")
      case True
      then show ?thesis using k by simp
    next
      case False
      then have pk: "p = ?ps ! k" using k by simp
      have "map participantAddress ?ps ! k \<noteq> map participantAddress ?ps ! j"
        using nth_eq_iff_index_eq[OF d, of k j] False k(1) j by simp
      then show ?thesis using pk k(1) j a by simp
    qed
  qed
  have set_addr: "participantAddress ` set ?ps' = participantAddress ` set ?ps"
    using maddr by (metis set_map)
  let ?b' = "b\<lparr>supplyChainParticipants := ?ps', verifiedCount := verifiedCount b + 1\<rparr>"
  have sp: "supplyChainParticipants ?b' = ?ps'" by simp
  have fl: "exists ?b' = exists b" "isParticipant ?b' = isParticipant b"
    "totalParticipants ?b' = totalParticipants b" "verifiedCount ?b' = verifiedCount b + 1"
    by simp_all
  show ?thesis
    unfolding batch_inv_def Let_def sp fl
    apply (intro conjI)
    subgoal using ex by simp
    subgoal using d maddr by simp
    subgoal using ip set_addr by simp
    subgoal using tp by simp
    subgoal using vc filter_update_count[OF j nv xa(2)] by simp
    subgoal using elems mp ma xa by (metis fun_upd_apply)
    subgoal using mz ip a j by (metis fun_upd_apply image_eqI nth_mem)
    subgoal using elems un xa by metis
    done
qed

section \<open>Every transaction keeps the invariant\<close>

lemma verify_success:
  assumes inv: "registry_inv s"
    and ok: "verifySupplyChainTransfer e bid loc dat sg s = Inr s'"
  shows "exists (batches s bid) \<and> isParticipant (batches s bid) (msg_sender e) \<and>
         \<not> rewardClaimed (batches s bid) \<and> sg = Some (msg_sender e) \<and>
         (\<exists>j < length (supplyChainParticipants (batches s bid)).
            participantAddress (supplyChainParticipants (batches s bid) ! j) = msg_sender e \<and>
            \<not> hasVerified (supplyChainParticipants (batches s bid) ! j) \<and>
            verifiedCount (batches s bid) \<noteq> max_uint256 \<and>
            s' = verified e bid loc dat j s)"
proof -
  from ok have g: "exists (batches s bid)" "isParticipant (batches s bid) (msg_sender e)"
    "\<not> rewardClaimed (batches s bid)" "sg = Some (msg_sender e)"
    and loop: "verifyLoop e bid loc dat (supplyChainParticipants (batches s bid)) 0 s = Inr s'"
    by (auto simp: verifySupplyChainTransfer_def Let_def split: if_splits option.splits)
  from inv have "isParticipant (batches s bid) (msg_sender e) =
      (msg_sender e \<in> participantAddress ` set (supplyChainParticipants (batches s bid)))"
    by (simp add: registry_inv_def batch_inv_def Let_def)
  with g(2) have "msg_sender e \<in> participantAddress ` set (supplyChainParticipants (batches s bid))"
    by simp
  with verifyLoop_result[OF loop] g show ?thesis by auto
qed

lemma verified_inv:
  assumes inv: "registry_inv s" and ex: "exists (batches s bid)"
    and j: "j < length (supplyChainParticipants (batches s bid))"
    and nv: "\<not> hasVerified (supplyChainParticipants (batches s bid) ! j)"
    and a: "participantAddress (supplyChainParticipants (batches s bid) ! j) = msg_sender e"
  shows "registry_inv (verified e bid loc dat j s)"
proof -
  from inv have b: "batch_inv (batches s bid) (batchParticipants s bid)"
    by (simp add: registry_inv_def)
  from batch_inv_verified[OF b ex j nv a, of e loc dat] inv
  show ?thesis
    by (simp add: registry_inv_def verified_def emit_def)
qed

lemma verify_inv:
  "registry_inv s \<Longrightarrow> verifySupplyChainTransfer e bid loc dat sg s = Inr s' \<Longrightarrow> registry_inv s'"
  using verify_success verified_inv by blast

lemma batch_inv_claimed:
  "batch_inv b m \<Longrightarrow> exists b \<Longrightarrow>
   batch_inv (b\<lparr>rewardClaimed := True, rewardClaimedBy := a, rewardClaimedAt := t\<rparr>) m"
  by (simp add: batch_inv_def Let_def)

lemma claim_inv:
  "registry_inv s \<Longrightarrow> claimCustomerReward e bid s = Inr s' \<Longrightarrow> registry_inv s'"
  by (auto simp: claimCustomerReward_def Let_def registry_inv_def emit_def batch_inv_claimed
      split: if_splits)

lemma settle_success:
  assumes inv: "registry_inv s" and ok: "settleChannel e cid fs sg s = Inr s'"
  shows "\<exists>ds s1. fs = Some ds \<and> settleLoop e cid ds s = Inr s1 \<and> isOpen (channels s cid) \<and>
           s' = emit (ChannelClosed cid (block_timestamp e))
                   (s1\<lparr>channels := (channels s1)
                        (cid := (channels s1 cid)\<lparr>isOpen := False, closedAt := block_timestamp e,
                                        nonce := nonce (channels s1 cid) + 1\<rparr>)\<rparr>)"
  using ok
  by (auto simp: settleChannel_def Let_def split: if_splits option.splits sum.splits)

lemma settle_inv:
  assumes inv: "registry_inv s" and ok: "settleChannel e cid fs sg s = Inr s'"
  shows "registry_inv s'"
proof -
  from settle_success[OF inv ok] obtain ds s1 where
    loop: "settleLoop e cid ds s = Inr s1" and
    s': "s' = emit (ChannelClosed cid (block_timestamp e))
                   (s1\<lparr>channels := (channels s1)
                        (cid := (channels s1 cid)\<lparr>isOpen := False, closedAt := block_timestamp e,
                                        nonce := nonce (channels s1 cid) + 1\<rparr>)\<rparr>)"
    by blast
  from settleLoop_frame[OF inv loop] have "registry_inv s1" by simp
  then show ?thesis unfolding s' by (simp add: registry_inv_def emit_def)
qed

lemma exec_inv: "registry_inv s \<Longrightarrow> exec e c s = Inr s' \<Longrightarrow> registry_inv s'"
proof (cases c)
  case (SettleChannel cid fs sg)
  assume "registry_inv s" "exec e c s = Inr s'"
  then show ?thesis using SettleChannel settle_inv by simp
next
  case (VerifySupplyChainTransfer bid loc dat sg)
  assume "registry_inv s" "exec e c s = Inr s'"
  then show ?thesis using VerifySupplyChainTransfer verify_inv by simp
next
  case (ClaimCustomerReward bid)
  assume "registry_inv s" "exec e c s = Inr s'"
  then show ?thesis using ClaimCustomerReward claim_inv by simp
next
  case (OpenChannel cid ps)
  assume "registry_inv s" "exec e c s = Inr s'"
  then show ?thesis using OpenChannel
    by (auto simp: openChannel_def registry_inv_def emit_def split: if_splits)
next
  case (CloseChannel cid)
  assume "registry_inv s" "exec e c s = Inr s'"
  then show ?thesis using CloseChannel
    by (auto simp: closeChannel_def registry_inv_def emit_def split: if_splits)
next
  case (GrantRole r a)
  assume "registry_inv s" "exec e c s = Inr s'"
  then show ?thesis using GrantRole
    by (auto simp: grantRole_def registry_inv_def emit_def split: if_splits)
next
  case (RevokeRole r a)
  assume "registry_inv s" "exec e c s = Inr s'"
  then show ?thesis using RevokeRole
    by (auto simp: revokeRole_def registry_inv_def emit_def split: if_splits)
next
  case (RenounceRole r a)
  assume "registry_inv s" "exec e c s = Inr s'"
  then show ?thesis using RenounceRole
    by (auto simp: renounceRole_def registry_inv_def emit_def split: if_splits)
qed

lemma transact_inv: "registry_inv s \<Longrightarrow> registry_inv (transact s t)"
  by (auto simp: transact_def split: sum.splits dest: exec_inv)

lemma foldl_transact_inv: "registry_inv s \<Longrightarrow> registry_inv (foldl transact s ts)"
  by (induction ts arbitrary: s) (simp_all add: transact_inv)

lemma run_inv: "registry_inv (run deployer ts)"
  unfolding run_def by (rule foldl_transact_inv) (rule inv_constructor)

lemma batch_inv_entry:
  assumes "batch_inv b m" and "isParticipant b a"
  shows "\<exists>p \<in> set (supplyChainParticipants b). participantAddress p = a \<and> m a = p"
proof -
  from assms have "a \<in> participantAddress ` set (supplyChainParticipants b)"
    by (simp add: batch_inv_def Let_def)
  then obtain p where p: "p \<in> set (supplyChainParticipants b)" "a = participantAddress p"
    by (rule imageE)
  from assms(1) p(1) have "m (participantAddress p) = p" by (simp add: batch_inv_def Let_def)
  with p show ?thesis by blast
qed

lemmas eval_defs = run_def transact_def constructor_def env_at_def always_mints_def batch_B1_def
  openChannel_def closeChannel_def settleChannel_def registerBatchWithSupplyChain_def
  verifySupplyChainTransfer_def claimCustomerReward_def hasRole_def isChannelParticipant_def
  emit_def zero_batch_def zero_channel_def zero_participant_def max_uint256_def Let_def
  CUSTOMER_REWARD_def

section \<open>The settlement loop\<close>

lemma settleLoop_channels:
  "settleLoop e cid ds s = Inr s' \<Longrightarrow> channels s' = channels s \<and> roles s' = roles s"
proof (induction ds arbitrary: s)
  case Nil
  then show ?case by simp
next
  case (Cons d ds)
  show ?case
  proof (cases "exists (batches s (data_batchId d))")
    case True
    with Cons show ?thesis by simp
  next
    case False
    with Cons.prems obtain s1 where
      r: "registerBatchWithSupplyChain e (data_batchId d) (data_drugName d)
                (data_ingredients d) (data_expiryDate d) (data_supplyChainAddresses d)
                (data_supplyChainRoles d) cid s = Inr s1"
      and rest: "settleLoop e cid ds (emit (BatchSettled (data_batchId d) cid) s1) = Inr s'"
      by (auto split: sum.splits)
    from r have "channels s1 = channels s \<and> roles s1 = roles s"
      by (simp add: registerBatch_iff registered_frame)
    with Cons.IH[OF rest] show ?thesis by (simp add: emit_frame)
  qed
qed

lemma register_needs_entry_ok:
  "registerBatchWithSupplyChain e (data_batchId d) (data_drugName d)
      (data_ingredients d) (data_expiryDate d) (data_supplyChainAddresses d)
      (data_supplyChainRoles d) cid s = Inr s1 \<Longrightarrow> entry_ok e d"
  by (simp add: registerBatch_iff entry_ok_def participants_ok_def)

lemma settleLoop_fails:
  "find (\<lambda>d'. data_batchId d' = bid) ds = Some d \<Longrightarrow> \<not> exists (batches s bid) \<Longrightarrow>
   \<not> entry_ok e d \<Longrightarrow> \<exists>err. settleLoop e cid ds s = Inl err"
proof (induction ds arbitrary: s)
  case Nil
  then show ?case by simp
next
  case (Cons d0 ds)
  show ?case
  proof (cases "data_batchId d0 = bid")
    case True
    with Cons.prems have d0: "d0 = d" by simp
    have "\<exists>err. registerBatchWithSupplyChain e (data_batchId d) (data_drugName d)
                (data_ingredients d) (data_expiryDate d) (data_supplyChainAddresses d)
                (data_supplyChainRoles d) cid s = Inl err"
      using register_needs_entry_ok[of e d cid s] Cons.prems(3)
      by (cases "registerBatchWithSupplyChain e (data_batchId d) (data_drugName d)
                (data_ingredients d) (data_expiryDate d) (data_supplyChainAddresses d)
                (data_supplyChainRoles d) cid s") auto
    then show ?thesis using True d0 Cons.prems(2) by auto
  next
    case False
    with Cons.prems have f: "find (\<lambda>d'. data_batchId d' = bid) ds = Some d" by simp
    show ?thesis
    proof (cases "exists (batches s (data_batchId d0))")
      case True
      then show ?thesis using Cons.IH[OF f Cons.prems(2,3)] by simp
    next
      case ne: False
      show ?thesis
      proof (cases "registerBatchWithSupplyChain e (data_batchId d0) (data_drugName d0)
                (data_ingredients d0) (data_expiryDate d0) (data_supplyChainAddresses d0)
                (data_supplyChainRoles d0) cid s")
        case (Inl err)
        then show ?thesis using ne by simp
      next
        case (Inr s1)
        then have "batches s1 bid = batches s bid"
          using False by (simp add: registerBatch_iff registered_frame)
        then have "\<not> exists (batches (emit (BatchSettled (data_batchId d0) cid) s1) bid)"
          using Cons.prems(2) by (simp add: emit_frame)
        from Cons.IH[OF f this Cons.prems(3)] show ?thesis using ne Inr by simp
      qed
    qed
  qed
qed

lemma entry_ok_register:
  assumes inv: "registry_inv s" and ne: "\<not> exists (batches s (data_batchId d))"
    and ok: "entry_ok e d"
  shows "registerBatchWithSupplyChain e (data_batchId d) (data_drugName d)
      (data_ingredients d) (data_expiryDate d) (data_supplyChainAddresses d)
      (data_supplyChainRoles d) cid s =
     Inr (registered e (data_batchId d) (data_drugName d)
      (data_ingredients d) (data_expiryDate d) (data_supplyChainAddresses d)
      (data_supplyChainRoles d) cid s)"
  using inv_absent[OF inv ne] ne ok
  by (simp add: registerBatch_iff entry_ok_def zero_batch_participants_ok)

lemma settleLoop_registers:
  "registry_inv s \<Longrightarrow>
   \<forall>d. \<not> exists (batches s (data_batchId d)) \<and>
        find (\<lambda>d'. data_batchId d' = data_batchId d) ds = Some d \<longrightarrow> entry_ok e d \<Longrightarrow>
   \<exists>s'. settleLoop e cid ds s = Inr s' \<and> (\<forall>bid. batches s' bid = settled_batch e cid ds s bid)"
proof (induction ds arbitrary: s)
  case Nil
  then show ?case by (simp add: settled_batch_def)
next
  case (Cons d ds)
  show ?case
  proof (cases "exists (batches s (data_batchId d))")
    case True
    have "\<forall>d'. \<not> exists (batches s (data_batchId d')) \<and>
        find (\<lambda>x. data_batchId x = data_batchId d') ds = Some d' \<longrightarrow> entry_ok e d'"
    proof (intro allI impI)
      fix d' assume a: "\<not> exists (batches s (data_batchId d')) \<and>
        find (\<lambda>x. data_batchId x = data_batchId d') ds = Some d'"
      with True have "data_batchId d \<noteq> data_batchId d'" by auto
      with a have "find (\<lambda>x. data_batchId x = data_batchId d') (d # ds) = Some d'" by simp
      with a Cons.prems(2) show "entry_ok e d'" by blast
    qed
    from Cons.IH[OF Cons.prems(1) this] obtain s' where
      s': "settleLoop e cid ds s = Inr s'" "\<And>bid. batches s' bid = settled_batch e cid ds s bid"
      by blast
    have "settled_batch e cid (d # ds) s bid = settled_batch e cid ds s bid" for bid
      using True by (auto simp: settled_batch_def)
    with s' True show ?thesis by simp
  next
    case False
    let ?r = "registered e (data_batchId d) (data_drugName d) (data_ingredients d)
      (data_expiryDate d) (data_supplyChainAddresses d) (data_supplyChainRoles d) cid s"
    let ?s1 = "emit (BatchSettled (data_batchId d) cid) ?r"
    have "find (\<lambda>x. data_batchId x = data_batchId d) (d # ds) = Some d" by simp
    with Cons.prems(2) False have ok: "entry_ok e d" by blast
    note reg = entry_ok_register[OF Cons.prems(1) False ok, of cid]
    have z: "batches s (data_batchId d) = zero_batch"
      using inv_absent[OF Cons.prems(1) False] by simp
    have nb: "batches ?s1 (data_batchId d) = new_batch e cid d"
      using registered_new_batch[OF z] by (simp add: emit_frame)
    have other: "b \<noteq> data_batchId d \<Longrightarrow> batches ?s1 b = batches s b" for b
      by (simp add: emit_frame registered_frame)
    have inv1: "registry_inv ?s1"
      unfolding emit_inv
      using registered_inv[OF Cons.prems(1) False] ok inv_absent[OF Cons.prems(1) False]
      by (simp add: entry_ok_def zero_batch_participants_ok)
    have oks: "\<forall>d'. \<not> exists (batches ?s1 (data_batchId d')) \<and>
        find (\<lambda>x. data_batchId x = data_batchId d') ds = Some d' \<longrightarrow> entry_ok e d'"
    proof (intro allI impI)
      fix d' assume a: "\<not> exists (batches ?s1 (data_batchId d')) \<and>
        find (\<lambda>x. data_batchId x = data_batchId d') ds = Some d'"
      then have ne': "data_batchId d' \<noteq> data_batchId d" using nb by (auto simp: new_batch_def)
      then have "\<not> exists (batches s (data_batchId d'))" using a other by simp
      moreover from ne' a have "find (\<lambda>x. data_batchId x = data_batchId d') (d # ds) = Some d'"
        by auto
      ultimately show "entry_ok e d'" using Cons.prems(2) by blast
    qed
    from Cons.IH[OF inv1 oks] obtain s' where
      s': "settleLoop e cid ds ?s1 = Inr s'" "\<And>bid. batches s' bid = settled_batch e cid ds ?s1 bid"
      by blast
    have "settled_batch e cid ds ?s1 bid = settled_batch e cid (d # ds) s bid" for bid
    proof (cases "bid = data_batchId d")
      case True
      then show ?thesis using nb False by (simp add: settled_batch_def new_batch_def)
    next
      case ne: False
      then show ?thesis using other[OF ne] by (simp add: settled_batch_def split: option.splits)
    qed
    with s' reg False show ?thesis by simp
  qed
qed

section \<open>The reward claim\<close>

lemma verified_B1_facts:
  "exists (batches verified_B1 ''B1'')" "\<not> rewardClaimed (batches verified_B1 ''B1'')"
  "verifiedCount (batches verified_B1 ''B1'') = 1" "totalParticipants (batches verified_B1 ''B1'') = 1"
  "expiryDate (batches verified_B1 ''B1'') = 100"
  "isParticipant (batches verified_B1 ''B1'') a = (a = 2)"
  "hasVerified (batchParticipants verified_B1 ''B1'' 2)"
  by (simp_all add: verified_B1_def eval_defs)

lemma opened_7_facts:
  "isOpen (channels opened_7 7)" "isChannelParticipant opened_7 7 1"
  "hasRole opened_7 MANUFACTURER_ROLE 1" "hasRole opened_7 CHANNEL_ROLE 1"
  "\<not> exists (batches opened_7 b)"
  by (simp_all add: opened_7_def eval_defs)

lemma claim_success_iff:
  "claimCustomerReward e bid s = Inr s' \<longleftrightarrow>
     exists (batches s bid) \<and> \<not> rewardClaimed (batches s bid) \<and>
     verifiedCount (batches s bid) = totalParticipants (batches s bid) \<and>
     \<not> isParticipant (batches s bid) (msg_sender e) \<and>
     mediToken_mint e (s\<lparr>batches := (batches s)
                    (bid := (batches s bid)\<lparr>rewardClaimed := True, rewardClaimedBy := msg_sender e,
                                  rewardClaimedAt := block_timestamp e\<rparr>)\<rparr>) (msg_sender e) CUSTOMER_REWARD \<and>
     s' = emit (CustomerRewardClaimed bid (msg_sender e) CUSTOMER_REWARD (block_timestamp e))
            (s\<lparr>batches := (batches s)
                    (bid := (batches s bid)\<lparr>rewardClaimed := True, rewardClaimedBy := msg_sender e,
                                  rewardClaimedAt := block_timestamp e\<rparr>)\<rparr>)"
  by (auto simp: claimCustomerReward_def Let_def)

text \<open>
  C1. The reward claim is meant to succeed exactly when the batch exists, is fully
  verified, is unclaimed, has not expired, and the claimant is no participant; every
  other case is to fail with the matching error. \<open>claimCustomerReward\<close> never
  reads \<open>expiryDate\<close>: batch \<open>B1\<close> expires at time 100, is fully verified, and
  the claim of the non-participant 9 at time 200 succeeds.
\<close>

theorem claim_after_expiry_succeeds:
  "expiryDate (batches verified_B1 ''B1'') = 100 \<and> block_timestamp (env_at 9 200) = 200 \<and>
   (\<exists>s'. claimCustomerReward (env_at 9 200) ''B1'' verified_B1 = Inr s' \<and>
         rewardClaimed (batches s' ''B1'') \<and> rewardClaimedBy (batches s' ''B1'') = 9)"
  by (simp add: claim_success_iff verified_B1_facts env_at_def always_mints_def emit_def)

text \<open>
  C9. In a successful claim the storage writes come before the call of the token
  contract. The token's \<open>mint\<close> is called on the storage in which the batch already
  has \<open>rewardClaimed = True\<close>, the claimant and the claim time recorded: the outcome
  of the claim depends on the token's behaviour on such storages only (two tokens that
  agree there give the same outcome), so \<open>mint\<close> is never called while the flag is
  still false; and a claim that succeeds has had \<open>mint\<close> return on exactly that storage.
\<close>

theorem claim_mutates_before_mint:
  "((\<forall>st to amount.
       rewardClaimed (batches st bid) \<and> rewardClaimedBy (batches st bid) = msg_sender e \<and>
       rewardClaimedAt (batches st bid) = block_timestamp e \<longrightarrow>
       token st to amount = token' st to amount) \<longrightarrow>
    claimCustomerReward (e\<lparr>mediToken_mint := token\<rparr>) bid s =
    claimCustomerReward (e\<lparr>mediToken_mint := token'\<rparr>) bid s) \<and>
   (claimCustomerReward e bid s = Inr s' \<longrightarrow>
      mediToken_mint e
        (s\<lparr>batches := (batches s)
             (bid := (batches s bid)\<lparr>rewardClaimed := True, rewardClaimedBy := msg_sender e,
                                      rewardClaimedAt := block_timestamp e\<rparr>)\<rparr>)
        (msg_sender e) CUSTOMER_REWARD \<and>
      rewardClaimed (batches s' bid) \<and> rewardClaimedBy (batches s' bid) = msg_sender e \<and>
      rewardClaimedAt (batches s' bid) = block_timestamp e)"
proof (intro conjI impI)
  assume agree: "\<forall>st to amount.
       rewardClaimed (batches st bid) \<and> rewardClaimedBy (batches st bid) = msg_sender e \<and>
       rewardClaimedAt (batches st bid) = block_timestamp e \<longrightarrow>
       token st to amount = token' st to amount"
  let ?s1 = "s\<lparr>batches := (batches s)
             (bid := (batches s bid)\<lparr>rewardClaimed := True, rewardClaimedBy := msg_sender e,
                                      rewardClaimedAt := block_timestamp e\<rparr>)\<rparr>"
  have "token ?s1 (msg_sender e) CUSTOMER_REWARD = token' ?s1 (msg_sender e) CUSTOMER_REWARD"
    using agree by simp
  then show "claimCustomerReward (e\<lparr>mediToken_mint := token\<rparr>) bid s =
    claimCustomerReward (e\<lparr>mediToken_mint := token'\<rparr>) bid s"
    by (simp add: claimCustomerReward_def Let_def)
next
  assume ok: "claimCustomerReward e bid s = Inr s'"
  then show "mediToken_mint e
        (s\<lparr>batches := (batches s)
             (bid := (batches s bid)\<lparr>rewardClaimed := True, rewardClaimedBy := msg_sender e,
                                      rewardClaimedAt := block_timestamp e\<rparr>)\<rparr>)
        (msg_sender e) CUSTOMER_REWARD"
    by (simp add: claim_success_iff)
  from ok show "rewardClaimed (batches s' bid)" "rewardClaimedBy (batches s' bid) = msg_sender e"
    "rewardClaimedAt (batches s' bid) = block_timestamp e"
    by (simp_all add: claim_success_iff emit_def)
qed

theorem claim_mutates_before_mint_witness:
  "claimCustomerReward ((env_at 9 200)\<lparr>mediToken_mint := mints_when_claimed ''B1''\<rparr>) ''B1'' verified_B1 =
   claimCustomerReward ((env_at 9 200)\<lparr>mediToken_mint := always_mints\<rparr>) ''B1'' verified_B1 \<and>
   (\<exists>s'. claimCustomerReward (env_at 9 200) ''B1'' verified_B1 = Inr s' \<and>
      rewardClaimed (batches s' ''B1'') \<and> rewardClaimedBy (batches s' ''B1'') = 9 \<and>
      rewardClaimedAt (batches s' ''B1'') = 200)"
proof -
  have h1: "\<forall>st to amount.
       rewardClaimed (batches st ''B1'') \<and> rewardClaimedBy (batches st ''B1'') = msg_sender (env_at 9 200) \<and>
       rewardClaimedAt (batches st ''B1'') = block_timestamp (env_at 9 200) \<longrightarrow>
       mints_when_claimed ''B1'' st to amount = always_mints st to amount"
    by (simp add: mints_when_claimed_def always_mints_def)
  obtain s' where h2: "claimCustomerReward (env_at 9 200) ''B1'' verified_B1 = Inr s'"
    by (simp add: claim_success_iff verified_B1_facts env_at_def always_mints_def)
  from claim_mutates_before_mint[of "''B1''" "env_at 9 200" "mints_when_claimed ''B1''" always_mints
      verified_B1 s'] h1 h2
  show ?thesis by (simp add: env_at_def)
qed

section \<open>Frame properties of the transactions\<close>

lemma verified_frame:
  "channels (verified e bid loc dat j s) = channels s"
  "roles (verified e bid loc dat j s) = roles s"
  "exists (batches (verified e bid loc dat j s) b) = exists (batches s b)"
  by (cases "b = bid"; simp add: verified_def emit_def)+

lemma verify_frame:
  assumes "verifySupplyChainTransfer e bid loc dat sg s = Inr s'"
  shows "channels s' = channels s" "roles s' = roles s"
    "exists (batches s' b) = exists (batches s b)"
proof -
  from assms have loop: "verifyLoop e bid loc dat (supplyChainParticipants (batches s bid)) 0 s = Inr s'"
    by (auto simp: verifySupplyChainTransfer_def Let_def split: if_splits option.splits)
  from verifyLoop_result[OF loop] have "s' = s \<or> (\<exists>j. s' = verified e bid loc dat j s)"
    by auto
  then show "channels s' = channels s" "roles s' = roles s"
    "exists (batches s' b) = exists (batches s b)"
    by (auto simp: verified_frame)
qed


lemma claim_frame:
  assumes "claimCustomerReward e bid s = Inr s'"
  shows "channels s' = channels s" "roles s' = roles s"
    "exists (batches s' b) = exists (batches s b)"
  using assms by (auto simp: claim_success_iff emit_def)



lemma exec_creates_batch:
  assumes "exec e c s = Inr s'" and "exists (batches s' b) \<noteq> exists (batches s b)"
  shows "\<exists>cid fs sg. c = SettleChannel cid fs sg"
proof (cases c)
  case (SettleChannel cid' fs sg)
  then show ?thesis by simp
next
  case (VerifySupplyChainTransfer bid loc dat sg)
  with assms(1) have st: "verifySupplyChainTransfer e bid loc dat sg s = Inr s'" by simp
  from verify_frame(3)[OF st, of b] assms(2) show ?thesis by simp
next
  case (ClaimCustomerReward bid)
  with assms(1) have st: "claimCustomerReward e bid s = Inr s'" by simp
  from claim_frame(3)[OF st, of b] assms(2) show ?thesis by simp
next
  case (OpenChannel cid' ps)
  with assms show ?thesis by (auto simp: openChannel_def emit_def split: if_splits)
next
  case (CloseChannel cid')
  with assms show ?thesis by (auto simp: closeChannel_def emit_def split: if_splits)
next
  case (GrantRole r a)
  with assms show ?thesis by (auto simp: grantRole_def emit_def split: if_splits)
next
  case (RevokeRole r a)
  with assms show ?thesis by (auto simp: revokeRole_def emit_def split: if_splits)
next
  case (RenounceRole r a)
  with assms show ?thesis by (auto simp: renounceRole_def emit_def split: if_splits)
qed

lemma closed_7_facts:
  "\<not> isOpen (channels closed_7 7)" "hasRole closed_7 CHANNEL_ROLE 1"
  by (simp_all add: closed_7_def eval_defs)

section \<open>Channels, direct registration and participant details\<close>




text \<open>
  C6. The claim: batches can be registered directly, by an externally callable
  \<open>registerBatch\<close>, without a settlement. In the contract
  \<open>registerBatchWithSupplyChain\<close> is \<open>internal\<close>: no transaction other than a
  \<open>settleChannel\<close> changes which batch ids exist.
\<close>

theorem batch_created_only_by_settle:
  "exists (batches (transact s t) bid) = exists (batches s bid) \<or>
   (\<exists>cid fs sg. snd t = SettleChannel cid fs sg)"
proof (cases "exec (fst t) (snd t) s")
  case (Inl err)
  then show ?thesis by (simp add: transact_def)
next
  case (Inr s')
  then have "transact s t = s'" by (simp add: transact_def)
  with Inr exec_creates_batch[of "fst t" "snd t" s s' bid] show ?thesis by auto
qed

text \<open>
  C10. The claim: for an existing batch and an address that is not one of its
  participants, \<open>getParticipantDetails\<close> does not fail and returns the zero record,
  indistinguishable from the answer for a listed participant that has never verified.
  The answer for a listed participant carries its role: in batch \<open>B1\<close>, registered and
  not yet verified, the non-participant 9 gets role \<open>NONE\<close> and the listed participant
  2, who has never verified, gets \<open>TRANSPORTER\<close>.
\<close>

theorem getParticipantDetails_role_counterexample:
  "exists (batches registered_B1 ''B1'') \<and> \<not> isParticipant (batches registered_B1 ''B1'') 9 \<and>
   isParticipant (batches registered_B1 ''B1'') 2 \<and>
   \<not> hasVerified (batchParticipants registered_B1 ''B1'' 2) \<and>
   getParticipantDetails ''B1'' 9 registered_B1 = Inr (NONE, False, 0, [], []) \<and>
   getParticipantDetails ''B1'' 2 registered_B1 = Inr (TRANSPORTER, False, 0, [], []) \<and>
   getParticipantDetails ''B1'' 9 registered_B1 \<noteq> getParticipantDetails ''B1'' 2 registered_B1"
  by (simp add: registered_B1_def getParticipantDetails_def eval_defs)

text \<open>
  C10 as amended. On every reachable storage, \<open>getParticipantDetails\<close> fails exactly
  when the batch does not exist. For an existing batch and an address that is not one of
  its participants it returns the zero record: role \<open>NONE\<close>, not verified, time 0, empty
  location and data. A listed participant that has not verified returns its own role
  with the same other four values; so the answer for a non-participant is
  indistinguishable from the answer for a listed participant of role \<open>NONE\<close> that has
  never verified, and differs from that of any other never-verified participant in the
  role alone.
\<close>

theorem getParticipantDetails_non_participant:
  "((\<exists>err. getParticipantDetails bid a (run deployer ts) = Inl err) =
      (\<not> exists (batches (run deployer ts) bid))) \<and>
   (exists (batches (run deployer ts) bid) \<and> \<not> isParticipant (batches (run deployer ts) bid) a \<longrightarrow>
      getParticipantDetails bid a (run deployer ts) = Inr (NONE, False, 0, [], [])) \<and>
   (exists (batches (run deployer ts) bid) \<and> isParticipant (batches (run deployer ts) bid) a' \<and>
    \<not> hasVerified (batchParticipants (run deployer ts) bid a') \<longrightarrow>
      getParticipantDetails bid a' (run deployer ts) =
        Inr (role (batchParticipants (run deployer ts) bid a'), False, 0, [], [])) \<and>
   (exists (batches (run deployer ts) bid) \<and> \<not> isParticipant (batches (run deployer ts) bid) a \<and>
    isParticipant (batches (run deployer ts) bid) a' \<and>
    \<not> hasVerified (batchParticipants (run deployer ts) bid a') \<and>
    role (batchParticipants (run deployer ts) bid a') = NONE \<longrightarrow>
      getParticipantDetails bid a (run deployer ts) = getParticipantDetails bid a' (run deployer ts))"
proof -
  let ?s = "run deployer ts"
  let ?b = "batches ?s bid"
  have inv: "batch_inv ?b (batchParticipants ?s bid)"
    using run_inv[of deployer ts] by (simp add: registry_inv_def)
  have z: "batchParticipants ?s bid a = zero_participant" if "\<not> isParticipant ?b a"
    using inv that by (simp add: batch_inv_def Let_def)
  have l: "verifiedAt (batchParticipants ?s bid a') = 0 \<and> location (batchParticipants ?s bid a') = [] \<and>
           additionalData (batchParticipants ?s bid a') = []"
    if ip: "isParticipant ?b a'" and nv: "\<not> hasVerified (batchParticipants ?s bid a')"
  proof -
    from batch_inv_entry[OF inv ip] obtain p where p: "p \<in> set (supplyChainParticipants ?b)"
      "batchParticipants ?s bid a' = p" by blast
    with inv nv show ?thesis by (simp add: batch_inv_def Let_def)
  qed
  show ?thesis
    using z l by (auto simp: getParticipantDetails_def Let_def zero_participant_def)
qed

theorem getParticipantDetails_non_participant_witness:
  "exists (batches registered_N1 ''N1'') \<and> \<not> isParticipant (batches registered_N1 ''N1'') 9 \<and>
   isParticipant (batches registered_N1 ''N1'') 4 \<and>
   \<not> hasVerified (batchParticipants registered_N1 ''N1'' 4) \<and>
   role (batchParticipants registered_N1 ''N1'' 4) = NONE \<and>
   getParticipantDetails ''N1'' 9 registered_N1 = Inr (NONE, False, 0, [], []) \<and>
   getParticipantDetails ''N1'' 4 registered_N1 = Inr (NONE, False, 0, [], []) \<and>
   getParticipantDetails ''N1'' 9 registered_N1 = getParticipantDetails ''N1'' 4 registered_N1 \<and>
   (\<exists>err. getParticipantDetails ''B1'' 9 registered_N1 = Inl err)"
proof -
  have h: "exists (batches registered_N1 ''N1'')" "\<not> isParticipant (batches registered_N1 ''N1'') 9"
    "isParticipant (batches registered_N1 ''N1'') 4"
    "\<not> hasVerified (batchParticipants registered_N1 ''N1'' 4)"
    "role (batchParticipants registered_N1 ''N1'' 4) = NONE"
    "\<not> exists (batches registered_N1 ''B1'')"
    by (simp_all add: registered_N1_def batch_N1_def eval_defs)
  from getParticipantDetails_non_participant[of "''N1''" 9 1
          "[(env_at 1 10, OpenChannel 7 [1]),
            (env_at 1 20, SettleChannel 7 (Some [batch_N1]) (Some 1))]" 4]
       getParticipantDetails_non_participant[of "''B1''" 9 1
          "[(env_at 1 10, OpenChannel 7 [1]),
            (env_at 1 20, SettleChannel 7 (Some [batch_N1]) (Some 1))]" 4]
  show ?thesis using h by (simp add: registered_N1_def[symmetric])
qed

section \<open>Settlement as a whole\<close>

lemma settle_ok:
  assumes inv: "registry_inv s" and op: "isOpen (channels s cid)"
    and sg: "isChannelParticipant s cid signer" "hasRole s MANUFACTURER_ROLE signer"
    and ok: "\<forall>d. \<not> exists (batches s (data_batchId d)) \<and>
        find (\<lambda>d'. data_batchId d' = data_batchId d) ds = Some d \<longrightarrow> entry_ok e d"
  shows "\<exists>s'. settleChannel e cid (Some ds) (Some signer) s = Inr s' \<and>
           (\<forall>bid. batches s' bid = settled_batch e cid ds s bid) \<and> \<not> isOpen (channels s' cid)"
proof -
  from settleLoop_registers[OF inv ok, of cid] obtain s1 where
    loop: "settleLoop e cid ds s = Inr s1" and b: "\<And>bid. batches s1 bid = settled_batch e cid ds s bid"
    by blast
  from settleLoop_channels[OF loop] have ch: "channels s1 = channels s" by simp
  from inv op have "nonce (channels s cid) = 0" by (simp add: registry_inv_def)
  then have n: "nonce (channels s1 cid) \<noteq> max_uint256" using ch by (simp add: max_uint256_def)
  show ?thesis
    using op sg loop n b by (simp add: settleChannel_def Let_def emit_def)
qed

lemma settle_fails:
  assumes "find (\<lambda>d'. data_batchId d' = data_batchId d) ds = Some d"
    and "\<not> exists (batches s (data_batchId d))" and "\<not> entry_ok e d"
  shows "\<exists>err. settleChannel e cid (Some ds) sg s = Inl err"
proof -
  from settleLoop_fails[OF assms, of cid] obtain err where "settleLoop e cid ds s = Inl err"
    by blast
  then show ?thesis
    by (simp add: settleChannel_def Let_def split: option.splits)
qed

section \<open>Guards of the verification\<close>

lemma verify_already:
  assumes inv: "registry_inv s" and ex: "exists (batches s bid)"
    and ip: "isParticipant (batches s bid) (msg_sender e)"
    and nc: "\<not> rewardClaimed (batches s bid)"
    and hv: "hasVerified (batchParticipants s bid (msg_sender e))"
  shows "verifySupplyChainTransfer e bid loc dat (Some (msg_sender e)) s =
           Inl (Revert ''Already verified'')"
proof -
  from inv have b: "batch_inv (batches s bid) (batchParticipants s bid)"
    by (simp add: registry_inv_def)
  from batch_inv_entry[OF b ip] obtain p where p: "p \<in> set (supplyChainParticipants (batches s bid))"
    "participantAddress p = msg_sender e" and "batchParticipants s bid (msg_sender e) = p"
    by blast
  with hv have hp: "hasVerified p" by simp
  from b have d: "distinct (map participantAddress (supplyChainParticipants (batches s bid)))"
    by (simp add: batch_inv_def Let_def)
  from verifyLoop_already[OF d p hp] ex ip nc show ?thesis
    by (simp add: verifySupplyChainTransfer_def Let_def)
qed

lemma eval_facts_B1:
  "isParticipant (batches verified_B1 ''B1'') 2" "\<not> isParticipant (batches verified_B1 ''B1'') 9"
  "exists (batches claimed_B1 ''B1'')" "rewardClaimed (batches claimed_B1 ''B1'')"
  "isParticipant (batches claimed_B1 ''B1'') 2"
  by (simp_all add: verified_B1_def claimed_B1_def eval_defs)

section \<open>The claims on settlement, registration and verification\<close>

text \<open>
  C2. The claim: a registration with more than 20 participants is rejected with
  \<open>TooManyParticipants\<close> and creates no batch. \<open>registerBatchWithSupplyChain\<close> has no
  upper bound on the number of participants: the settlement of a batch with 21 distinct
  participants registers it.
\<close>

theorem register_21_participants_succeeds:
  "length (data_supplyChainAddresses batch_B2) = 21 \<and>
   distinct (data_supplyChainAddresses batch_B2) \<and>
   (\<exists>s'. settleChannel (env_at 1 20) 7 (Some [batch_B2]) (Some 1) opened_7 = Inr s' \<and>
         exists (batches s' ''B2'') \<and> totalParticipants (batches s' ''B2'') = 21)"
proof -
  have inv: "registry_inv opened_7" unfolding opened_7_def by (rule run_inv)
  have d: "length (data_supplyChainAddresses batch_B2) = 21" "distinct (data_supplyChainAddresses batch_B2)"
    by (simp_all add: batch_B2_def)
  have "entry_ok (env_at 1 20) batch_B2"
    by (simp add: entry_ok_def batch_B2_def env_at_def)
  have ok: "\<forall>d. \<not> exists (batches opened_7 (data_batchId d)) \<and>
        find (\<lambda>d'. data_batchId d' = data_batchId d) [batch_B2] = Some d \<longrightarrow>
        entry_ok (env_at 1 20) d"
  proof (intro allI impI)
    fix d
    assume a: "\<not> exists (batches opened_7 (data_batchId d)) \<and>
        find (\<lambda>d'. data_batchId d' = data_batchId d) [batch_B2] = Some d"
    have "find (\<lambda>d'. data_batchId d' = data_batchId d) [batch_B2] =
        (if data_batchId batch_B2 = data_batchId d then Some batch_B2 else None)" by simp
    with a have "(if data_batchId batch_B2 = data_batchId d then Some batch_B2 else None) = Some d"
      by simp
    then have "batch_B2 = d" by (cases "data_batchId batch_B2 = data_batchId d") simp_all
    with \<open>entry_ok (env_at 1 20) batch_B2\<close> show "entry_ok (env_at 1 20) d" by simp
  qed
  from settle_ok[OF inv opened_7_facts(1,2,3) ok] obtain s' where
    s': "settleChannel (env_at 1 20) 7 (Some [batch_B2]) (Some 1) opened_7 = Inr s'"
    "\<And>bid. batches s' bid = settled_batch (env_at 1 20) 7 [batch_B2] opened_7 bid"
    by blast
  have "batches s' ''B2'' = new_batch (env_at 1 20) 7 batch_B2"
    unfolding s'(2) by (simp add: settled_batch_def opened_7_facts batch_B2_def)
  then have "exists (batches s' ''B2'')" "totalParticipants (batches s' ''B2'') = 21"
    by (simp_all add: new_batch_def batch_B2_def)
  with s'(1) d show ?thesis by blast
qed

text \<open>
  C4. The claim: in a settlement an entry that fails its registration fails alone; the
  other entries are registered and the channel is settled. A failed \<open>require\<close> of the
  internal registration reverts the whole call: with the well-formed \<open>B1\<close> and the
  expired \<open>X1\<close> in one list, \<open>settleChannel\<close> reverts, \<open>B1\<close> is not registered and
  the channel is still open.
\<close>

theorem settle_item_failure_counterexample:
  "settleChannel (env_at 1 20) 7 (Some [batch_B1, batch_X1]) (Some 1) opened_7 =
     Inl (Revert ''Expiry date must be in future'') \<and>
   \<not> exists (batches (transact opened_7
        (env_at 1 20, SettleChannel 7 (Some [batch_B1, batch_X1]) (Some 1))) ''B1'') \<and>
   isOpen (channels (transact opened_7
        (env_at 1 20, SettleChannel 7 (Some [batch_B1, batch_X1]) (Some 1))) 7)"
proof -
  have r: "settleChannel (env_at 1 20) 7 (Some [batch_B1, batch_X1]) (Some 1) opened_7 =
     Inl (Revert ''Expiry date must be in future'')"
    by (simp add: opened_7_def batch_X1_def eval_defs)
  then have "transact opened_7 (env_at 1 20, SettleChannel 7 (Some [batch_B1, batch_X1]) (Some 1))
      = opened_7"
    by (simp add: transact_def)
  with r show ?thesis by (simp add: opened_7_facts)
qed

text \<open>
  C4 as amended. A registration failure of one entry aborts the whole settlement: when
  the first entry of the list with some batch id is not yet registered and violates a
  precondition of the registration (an expiry that is not in the future, participants
  and roles of different lengths, no participant, a zero address, a duplicate
  participant), \<open>settleChannel\<close> reverts, so that no entry of the list is registered and
  the channel stays as it was.
\<close>

theorem settle_item_failure_reverts:
  "find (\<lambda>d'. data_batchId d' = data_batchId d) ds = Some d \<and>
   \<not> exists (batches s (data_batchId d)) \<and> \<not> entry_ok e d \<longrightarrow>
     (\<exists>err. settleChannel e cid (Some ds) sg s = Inl err) \<and>
     transact s (e, SettleChannel cid (Some ds) sg) = s"
proof
  assume a: "find (\<lambda>d'. data_batchId d' = data_batchId d) ds = Some d \<and>
   \<not> exists (batches s (data_batchId d)) \<and> \<not> entry_ok e d"
  then obtain err where "settleChannel e cid (Some ds) sg s = Inl err"
    using settle_fails[of d ds s e cid sg] by blast
  then show "(\<exists>err. settleChannel e cid (Some ds) sg s = Inl err) \<and>
     transact s (e, SettleChannel cid (Some ds) sg) = s"
    by (simp add: transact_def)
qed

theorem settle_item_failure_reverts_witness:
  "find (\<lambda>d'. data_batchId d' = data_batchId batch_X1) [batch_B1, batch_X1] = Some batch_X1 \<and>
   \<not> exists (batches opened_7 (data_batchId batch_X1)) \<and> \<not> entry_ok (env_at 1 20) batch_X1 \<and>
   (\<exists>err. settleChannel (env_at 1 20) 7 (Some [batch_B1, batch_X1]) (Some 1) opened_7 = Inl err) \<and>
   transact opened_7 (env_at 1 20, SettleChannel 7 (Some [batch_B1, batch_X1]) (Some 1)) = opened_7"
proof -
  have h: "find (\<lambda>d'. data_batchId d' = data_batchId batch_X1) [batch_B1, batch_X1] = Some batch_X1 \<and>
   \<not> exists (batches opened_7 (data_batchId batch_X1)) \<and> \<not> entry_ok (env_at 1 20) batch_X1"
    by (simp add: batch_B1_def batch_X1_def opened_7_facts entry_ok_def env_at_def)
  from settle_item_failure_reverts[of batch_X1 "[batch_B1, batch_X1]" opened_7 "env_at 1 20" 7 "Some 1"] h
  show ?thesis by blast
qed

text \<open>
  C5. The claim: for every open channel and every list with a valid authorised
  signature, \<open>settleChannel\<close> registers exactly the entries whose id is not yet present,
  and a settlement against a channel that is not open is rejected. The first part fails
  for a list with an entry that cannot be registered: the channel is open, the signer is
  a channel participant and a manufacturer, \<open>Z1\<close> (a duplicate participant) is not
  present, and after the transaction it is still not registered.
\<close>

theorem settle_registers_absent_counterexample:
  "isOpen (channels opened_7 7) \<and> isChannelParticipant opened_7 7 1 \<and>
   hasRole opened_7 MANUFACTURER_ROLE 1 \<and> \<not> exists (batches opened_7 ''Z1'') \<and>
   \<not> exists (batches (transact opened_7
        (env_at 1 20, SettleChannel 7 (Some [batch_Z1]) (Some 1))) ''Z1'')"
proof -
  have "settleChannel (env_at 1 20) 7 (Some [batch_Z1]) (Some 1) opened_7 =
     Inl (Revert ''Duplicate participant'')"
    by (simp add: opened_7_def batch_Z1_def eval_defs)
  then have "transact opened_7 (env_at 1 20, SettleChannel 7 (Some [batch_Z1]) (Some 1)) = opened_7"
    by (simp add: transact_def)
  then show ?thesis by (simp add: opened_7_facts)
qed

text \<open>
  C5 as amended. On a reachable storage, for an open channel, a signature that recovers
  to a channel participant holding \<open>MANUFACTURER_ROLE\<close>, and a list in which, for
  every batch id not yet present, the first entry with that id satisfies the
  preconditions of the registration, \<open>settleChannel\<close> succeeds, closes the channel, and
  leaves exactly this: a batch id present before keeps its record unchanged, an id not
  present before that occurs in the list holds the new record made from its first entry
  in the list, and every other id stays absent. Entries with an id that is present, and
  later entries with an id the list has already registered, are skipped whatever they
  hold. On any storage, a settlement against a channel that is not open is rejected with
  \<open>Channel not open\<close> and changes nothing.
\<close>

theorem settle_registers_absent_entries:
  "(isOpen (channels (run deployer ts) cid) \<and> isChannelParticipant (run deployer ts) cid signer \<and>
    hasRole (run deployer ts) MANUFACTURER_ROLE signer \<and>
    (\<forall>d. \<not> exists (batches (run deployer ts) (data_batchId d)) \<and>
         find (\<lambda>d'. data_batchId d' = data_batchId d) ds = Some d \<longrightarrow> entry_ok e d) \<longrightarrow>
      (\<exists>s'. settleChannel e cid (Some ds) (Some signer) (run deployer ts) = Inr s' \<and>
            (\<forall>bid. batches s' bid = settled_batch e cid ds (run deployer ts) bid) \<and>
            \<not> isOpen (channels s' cid))) \<and>
   (\<not> isOpen (channels s cid) \<longrightarrow>
      settleChannel e cid fs sg s = Inl (Revert ''Channel not open'') \<and>
      transact s (e, SettleChannel cid fs sg) = s)"
proof (intro conjI impI)
  assume a: "isOpen (channels (run deployer ts) cid) \<and> isChannelParticipant (run deployer ts) cid signer \<and>
    hasRole (run deployer ts) MANUFACTURER_ROLE signer \<and>
    (\<forall>d. \<not> exists (batches (run deployer ts) (data_batchId d)) \<and>
         find (\<lambda>d'. data_batchId d' = data_batchId d) ds = Some d \<longrightarrow> entry_ok e d)"
  then have ok: "\<forall>d. \<not> exists (batches (run deployer ts) (data_batchId d)) \<and>
         find (\<lambda>d'. data_batchId d' = data_batchId d) ds = Some d \<longrightarrow> entry_ok e d"
    by blast
  from a settle_ok[OF run_inv _ _ _ ok, of cid signer]
  show "\<exists>s'. settleChannel e cid (Some ds) (Some signer) (run deployer ts) = Inr s' \<and>
            (\<forall>bid. batches s' bid = settled_batch e cid ds (run deployer ts) bid) \<and>
            \<not> isOpen (channels s' cid)"
    by blast
next
  assume "\<not> isOpen (channels s cid)"
  then show "settleChannel e cid fs sg s = Inl (Revert ''Channel not open'')"
    "transact s (e, SettleChannel cid fs sg) = s"
    by (simp_all add: settleChannel_def transact_def)
qed

theorem settle_registers_absent_entries_witness:
  "isOpen (channels settled_N1_opened_8 8) \<and> isChannelParticipant settled_N1_opened_8 8 1 \<and>
   hasRole settled_N1_opened_8 MANUFACTURER_ROLE 1 \<and>
   exists (batches settled_N1_opened_8 ''N1'') \<and> \<not> exists (batches settled_N1_opened_8 ''B1'') \<and>
   \<not> entry_ok (env_at 1 30) batch_N1x \<and> entry_ok (env_at 1 30) batch_B1 \<and>
   \<not> entry_ok (env_at 1 30) batch_B1x \<and>
   (\<exists>s'. settleChannel (env_at 1 30) 8 (Some [batch_N1x, batch_B1, batch_B1x]) (Some 1)
            settled_N1_opened_8 = Inr s' \<and>
         batches s' ''N1'' = batches settled_N1_opened_8 ''N1'' \<and>
         batches s' ''B1'' = new_batch (env_at 1 30) 8 batch_B1 \<and>
         batches s' ''X1'' = batches settled_N1_opened_8 ''X1'' \<and>
         \<not> isOpen (channels s' 8)) \<and>
   \<not> isOpen (channels closed_7 7) \<and>
   settleChannel (env_at 1 30) 7 (Some [batch_B1]) (Some 1) closed_7 = Inl (Revert ''Channel not open'') \<and>
   transact closed_7 (env_at 1 30, SettleChannel 7 (Some [batch_B1]) (Some 1)) = closed_7"
proof -
  let ?st = "settled_N1_opened_8"
  let ?ds = "[batch_N1x, batch_B1, batch_B1x]"
  have ids: "data_batchId batch_N1x = ''N1''" "data_batchId batch_B1 = ''B1''"
    "data_batchId batch_B1x = ''B1''"
    by (simp_all add: batch_N1x_def batch_B1_def batch_B1x_def)
  have h1: "isOpen (channels ?st 8)" "isChannelParticipant ?st 8 1"
    "hasRole ?st MANUFACTURER_ROLE 1"
    and h2: "exists (batches ?st ''N1'')" "\<not> exists (batches ?st ''B1'')"
      "\<not> exists (batches ?st ''X1'')"
    by (simp_all add: settled_N1_opened_8_def batch_N1_def eval_defs)
  have h3: "\<not> entry_ok (env_at 1 30) batch_N1x" "entry_ok (env_at 1 30) batch_B1"
    "\<not> entry_ok (env_at 1 30) batch_B1x"
    by (simp_all add: entry_ok_def batch_N1x_def batch_B1_def batch_B1x_def env_at_def)
  have h4: "\<not> isOpen (channels closed_7 7)" by (simp add: closed_7_facts)
  have hq: "\<forall>d. \<not> exists (batches ?st (data_batchId d)) \<and>
         find (\<lambda>d'. data_batchId d' = data_batchId d) ?ds = Some d \<longrightarrow> entry_ok (env_at 1 30) d"
  proof (intro allI impI)
    fix d
    assume a: "\<not> exists (batches ?st (data_batchId d)) \<and>
         find (\<lambda>d'. data_batchId d' = data_batchId d) ?ds = Some d"
    have f: "find (\<lambda>d'. data_batchId d' = data_batchId d) ?ds =
        (if ''N1'' = data_batchId d then Some batch_N1x
         else if ''B1'' = data_batchId d then Some batch_B1 else None)"
      by (simp add: ids)
    from a h2(1) have n: "''N1'' \<noteq> data_batchId d" by auto
    from a have "find (\<lambda>d'. data_batchId d' = data_batchId d) ?ds = Some d" by (rule conjunct2)
    with f n have "(if ''B1'' = data_batchId d then Some batch_B1 else None) = Some d" by simp
    then have "batch_B1 = d" by (cases "''B1'' = data_batchId d") simp_all
    with h3(2) show "entry_ok (env_at 1 30) d" by simp
  qed
  have sb: "settled_batch (env_at 1 30) 8 ?ds ?st ''N1'' = batches ?st ''N1''"
    "settled_batch (env_at 1 30) 8 ?ds ?st ''B1'' = new_batch (env_at 1 30) 8 batch_B1"
    "settled_batch (env_at 1 30) 8 ?ds ?st ''X1'' = batches ?st ''X1''"
    using h2 by (simp_all add: settled_batch_def ids)
  note inst = settle_registers_absent_entries[of 1
      "[(env_at 1 10, OpenChannel 7 [1]),
        (env_at 1 20, SettleChannel 7 (Some [batch_N1]) (Some 1)),
        (env_at 1 25, OpenChannel 8 [1])]" 8 1 ?ds
      "env_at 1 30" closed_7 "Some [batch_B1]" "Some 1",
      folded settled_N1_opened_8_def]
  note inst7 = settle_registers_absent_entries[of 1 "[]" 7 1 "[]"
      "env_at 1 30" closed_7 "Some [batch_B1]" "Some 1"]
  have c: "\<exists>s'. settleChannel (env_at 1 30) 8 (Some ?ds) (Some 1) ?st = Inr s' \<and>
            (\<forall>bid. batches s' bid = settled_batch (env_at 1 30) 8 ?ds ?st bid) \<and>
            \<not> isOpen (channels s' 8)"
    by (rule mp[OF conjunct1[OF inst]]) (intro conjI h1 hq)
  have r0: "settleChannel (env_at 1 30) 7 (Some [batch_B1]) (Some 1) closed_7 =
              Inl (Revert ''Channel not open'') \<and>
      transact closed_7 (env_at 1 30, SettleChannel 7 (Some [batch_B1]) (Some 1)) = closed_7"
    by (rule mp[OF conjunct2[OF inst7] h4])
  then have r: "settleChannel (env_at 1 30) 7 (Some [batch_B1]) (Some 1) closed_7 =
              Inl (Revert ''Channel not open'')"
      "transact closed_7 (env_at 1 30, SettleChannel 7 (Some [batch_B1]) (Some 1)) = closed_7"
    by (rule conjunct1, rule conjunct2)
  from c obtain s' where s': "settleChannel (env_at 1 30) 8 (Some ?ds) (Some 1) ?st = Inr s'"
    "\<And>bid. batches s' bid = settled_batch (env_at 1 30) 8 ?ds ?st bid"
    "\<not> isOpen (channels s' 8)"
    by blast
  have "batches s' ''N1'' = batches ?st ''N1''"
    "batches s' ''B1'' = new_batch (env_at 1 30) 8 batch_B1"
    "batches s' ''X1'' = batches ?st ''X1''"
    by (simp_all only: s'(2) sb)
  with s'(1,3) have e: "\<exists>s'. settleChannel (env_at 1 30) 8 (Some ?ds) (Some 1) ?st = Inr s' \<and>
         batches s' ''N1'' = batches ?st ''N1'' \<and>
         batches s' ''B1'' = new_batch (env_at 1 30) 8 batch_B1 \<and>
         batches s' ''X1'' = batches ?st ''X1'' \<and>
         \<not> isOpen (channels s' 8)"
    by (intro exI[of _ s'] conjI)
  show ?thesis
    by (intro conjI h1 h2(1,2) h3 e h4 r)
qed

text \<open>
  C7. The claim names three failures of a verification of an existing batch, each
  without a change of state: \<open>NotAuthorizedParticipant\<close> for a caller that is not
  listed, \<open>AlreadyVerified\<close> for a participant whose \<open>hasVerified\<close> is true, and
  \<open>BatchCompleted\<close> when the reward has been claimed. The guards are checked in a fixed
  order and the signature is checked before the participant's flag: participant 2 of
  \<open>B1\<close> has verified, the reward is unclaimed, and a further call of 2 with a signature
  that recovers to another address fails with \<open>Invalid signature\<close>.
\<close>

theorem verify_guard_order_counterexample:
  "exists (batches verified_B1 ''B1'') \<and> isParticipant (batches verified_B1 ''B1'') 2 \<and>
   hasVerified (batchParticipants verified_B1 ''B1'' 2) \<and>
   \<not> rewardClaimed (batches verified_B1 ''B1'') \<and>
   verifySupplyChainTransfer (env_at 2 40) ''B1'' ''Delhi'' ''ok'' (Some 3) verified_B1 =
     Inl (Revert ''Invalid signature'')"
  by (simp add: verifySupplyChainTransfer_def Let_def verified_B1_facts env_at_def)

text \<open>
  C7 as amended. On a reachable storage, a verification of an existing batch fails, in
  this order of precedence: with \<open>Not authorized participant\<close> when the caller is not a
  listed participant; with \<open>Batch already completed\<close> when the caller is listed and the
  reward has been claimed; with \<open>Invalid signature\<close> when the caller is listed, the
  reward is unclaimed and the signature recovers to another address; with
  \<open>Already verified\<close> when the caller is listed, the reward is unclaimed, the signature
  recovers to the caller and the caller's \<open>hasVerified\<close> is true. A verification that
  fails changes nothing.
\<close>

theorem verify_guards:
  "exists (batches (run deployer ts) bid) \<longrightarrow>
     (\<not> isParticipant (batches (run deployer ts) bid) (msg_sender e) \<longrightarrow>
        verifySupplyChainTransfer e bid loc dat sg (run deployer ts) =
          Inl (Revert ''Not authorized participant'')) \<and>
     (isParticipant (batches (run deployer ts) bid) (msg_sender e) \<and>
      rewardClaimed (batches (run deployer ts) bid) \<longrightarrow>
        verifySupplyChainTransfer e bid loc dat sg (run deployer ts) =
          Inl (Revert ''Batch already completed'')) \<and>
     (isParticipant (batches (run deployer ts) bid) (msg_sender e) \<and>
      \<not> rewardClaimed (batches (run deployer ts) bid) \<and> sg = Some a \<and> a \<noteq> msg_sender e \<longrightarrow>
        verifySupplyChainTransfer e bid loc dat sg (run deployer ts) =
          Inl (Revert ''Invalid signature'')) \<and>
     (isParticipant (batches (run deployer ts) bid) (msg_sender e) \<and>
      \<not> rewardClaimed (batches (run deployer ts) bid) \<and> sg = Some (msg_sender e) \<and>
      hasVerified (batchParticipants (run deployer ts) bid (msg_sender e)) \<longrightarrow>
        verifySupplyChainTransfer e bid loc dat sg (run deployer ts) =
          Inl (Revert ''Already verified'')) \<and>
     ((\<exists>err. verifySupplyChainTransfer e bid loc dat sg (run deployer ts) = Inl err) \<longrightarrow>
        transact (run deployer ts) (e, VerifySupplyChainTransfer bid loc dat sg) = run deployer ts)"
proof (intro impI conjI)
  assume ex: "exists (batches (run deployer ts) bid)"
  {
    assume "\<not> isParticipant (batches (run deployer ts) bid) (msg_sender e)"
    with ex show "verifySupplyChainTransfer e bid loc dat sg (run deployer ts) =
          Inl (Revert ''Not authorized participant'')"
      by (simp add: verifySupplyChainTransfer_def)
  next
    assume "isParticipant (batches (run deployer ts) bid) (msg_sender e) \<and>
      rewardClaimed (batches (run deployer ts) bid)"
    with ex show "verifySupplyChainTransfer e bid loc dat sg (run deployer ts) =
          Inl (Revert ''Batch already completed'')"
      by (simp add: verifySupplyChainTransfer_def)
  next
    assume "isParticipant (batches (run deployer ts) bid) (msg_sender e) \<and>
      \<not> rewardClaimed (batches (run deployer ts) bid) \<and> sg = Some a \<and> a \<noteq> msg_sender e"
    with ex show "verifySupplyChainTransfer e bid loc dat sg (run deployer ts) =
          Inl (Revert ''Invalid signature'')"
      by (simp add: verifySupplyChainTransfer_def)
  next
    assume "isParticipant (batches (run deployer ts) bid) (msg_sender e) \<and>
      \<not> rewardClaimed (batches (run deployer ts) bid) \<and> sg = Some (msg_sender e) \<and>
      hasVerified (batchParticipants (run deployer ts) bid (msg_sender e))"
    with ex verify_already[OF run_inv, of deployer ts bid e loc dat]
    show "verifySupplyChainTransfer e bid loc dat sg (run deployer ts) =
          Inl (Revert ''Already verified'')"
      by simp
  next
    assume "\<exists>err. verifySupplyChainTransfer e bid loc dat sg (run deployer ts) = Inl err"
    then show "transact (run deployer ts) (e, VerifySupplyChainTransfer bid loc dat sg) = run deployer ts"
      by (auto simp: transact_def)
  }
qed

theorem verify_guards_witness:
  "exists (batches verified_B1 ''B1'') \<and> \<not> isParticipant (batches verified_B1 ''B1'') 9 \<and>
   verifySupplyChainTransfer (env_at 9 40) ''B1'' ''Delhi'' ''ok'' (Some 9) verified_B1 =
     Inl (Revert ''Not authorized participant'') \<and>
   isParticipant (batches verified_B1 ''B1'') 2 \<and> \<not> rewardClaimed (batches verified_B1 ''B1'') \<and>
   hasVerified (batchParticipants verified_B1 ''B1'' 2) \<and>
   verifySupplyChainTransfer (env_at 2 40) ''B1'' ''Delhi'' ''ok'' (Some 2) verified_B1 =
     Inl (Revert ''Already verified'') \<and>
   transact verified_B1 (env_at 2 40, VerifySupplyChainTransfer ''B1'' ''Delhi'' ''ok'' (Some 2)) =
     verified_B1 \<and>
   exists (batches claimed_B1 ''B1'') \<and> isParticipant (batches claimed_B1 ''B1'') 2 \<and>
   rewardClaimed (batches claimed_B1 ''B1'') \<and>
   verifySupplyChainTransfer (env_at 2 40) ''B1'' ''Delhi'' ''ok'' (Some 2) claimed_B1 =
     Inl (Revert ''Batch already completed'')"
proof -
  note h = verified_B1_facts eval_facts_B1
  have e: "msg_sender (env_at 9 40) = 9" "msg_sender (env_at 2 40) = 2" by (simp_all add: env_at_def)
  from verify_guards[of 1 "[(env_at 1 10, OpenChannel 7 [1]),
      (env_at 1 20, SettleChannel 7 (Some [batch_B1]) (Some 1)),
      (env_at 2 30, VerifySupplyChainTransfer ''B1'' ''Mumbai'' ''ok'' (Some 2))]" "''B1''"
      "env_at 9 40" "''Delhi''" "''ok''" "Some 9" 0]
  have c1: "verifySupplyChainTransfer (env_at 9 40) ''B1'' ''Delhi'' ''ok'' (Some 9) verified_B1 =
     Inl (Revert ''Not authorized participant'')"
    using h e by (simp add: verified_B1_def[symmetric])
  from verify_guards[of 1 "[(env_at 1 10, OpenChannel 7 [1]),
      (env_at 1 20, SettleChannel 7 (Some [batch_B1]) (Some 1)),
      (env_at 2 30, VerifySupplyChainTransfer ''B1'' ''Mumbai'' ''ok'' (Some 2))]" "''B1''"
      "env_at 2 40" "''Delhi''" "''ok''" "Some 2" 0]
  have c2: "verifySupplyChainTransfer (env_at 2 40) ''B1'' ''Delhi'' ''ok'' (Some 2) verified_B1 =
     Inl (Revert ''Already verified'')"
    "transact verified_B1 (env_at 2 40, VerifySupplyChainTransfer ''B1'' ''Delhi'' ''ok'' (Some 2)) =
     verified_B1"
    using h e by (simp_all add: verified_B1_def[symmetric])
  from verify_guards[of 1 "[(env_at 1 10, OpenChannel 7 [1]),
      (env_at 1 20, SettleChannel 7 (Some [batch_B1]) (Some 1)),
      (env_at 2 30, VerifySupplyChainTransfer ''B1'' ''Mumbai'' ''ok'' (Some 2)),
      (env_at 9 35, ClaimCustomerReward ''B1'')]" "''B1''"
      "env_at 2 40" "''Delhi''" "''ok''" "Some 2" 0]
  have c3: "verifySupplyChainTransfer (env_at 2 40) ''B1'' ''Delhi'' ''ok'' (Some 2) claimed_B1 =
     Inl (Revert ''Batch already completed'')"
    using h e by (simp add: claimed_B1_def[symmetric])
  from c1 c2 c3 h show ?thesis by simp
qed

section \<open>The verification counter\<close>

lemma verified_count:
  "verifiedCount (batches (verified e bid' loc dat j s) bid) =
     (if bid = bid' then verifiedCount (batches s bid) + 1 else verifiedCount (batches s bid))"
  by (simp add: verified_def emit_def)

lemma verified_flags:
  "hasVerified (batchParticipants (verified e bid' loc dat j s) bid a) =
     (hasVerified (batchParticipants s bid a) \<or> (bid = bid' \<and> a = msg_sender e))"
  by (simp add: verified_def emit_def verified_entry_def)

lemma exec_count_step:
  assumes inv: "registry_inv s" and ex: "exec e c s = Inr s'"
  shows "(verifiedCount (batches s' bid) = verifiedCount (batches s bid) \<or>
          verifiedCount (batches s' bid) = verifiedCount (batches s bid) + 1 \<and>
          (\<exists>loc dat sg. c = VerifySupplyChainTransfer bid loc dat sg) \<and>
          isParticipant (batches s bid) (msg_sender e) \<and>
          \<not> hasVerified (batchParticipants s bid (msg_sender e)) \<and>
          hasVerified (batchParticipants s' bid (msg_sender e))) \<and>
         (hasVerified (batchParticipants s bid a) \<longrightarrow> hasVerified (batchParticipants s' bid a))"
proof (cases c)
  case (SettleChannel cid fs sg)
  with ex have st: "settleChannel e cid fs sg s = Inr s'" by simp
  from settle_success[OF inv st] obtain ds s1 where
    loop: "settleLoop e cid ds s = Inr s1" and
    s': "s' = emit (ChannelClosed cid (block_timestamp e))
                   (s1\<lparr>channels := (channels s1)
                        (cid := (channels s1 cid)\<lparr>isOpen := False, closedAt := block_timestamp e,
                                        nonce := nonce (channels s1 cid) + 1\<rparr>)\<rparr>)"
    by blast
  have b: "batches s' = batches s1" "batchParticipants s' = batchParticipants s1"
    unfolding s' by (simp_all add: emit_def)
  note fr = settleLoop_frame[OF inv loop]
  show ?thesis
  proof (cases "exists (batches s bid)")
    case True
    with fr show ?thesis by (simp add: b)
  next
    case False
    with fr have "verifiedCount (batches s1 bid) = 0" by simp
    moreover from inv_absent_fields[OF inv False]
    have "verifiedCount (batches s bid) = 0" "\<not> hasVerified (batchParticipants s bid a)"
      by simp_all
    ultimately show ?thesis by (simp add: b)
  qed
next
  case (VerifySupplyChainTransfer bid' loc dat sg)
  with ex have st: "verifySupplyChainTransfer e bid' loc dat sg s = Inr s'" by simp
  from verify_success[OF inv st] obtain j where
    ip: "isParticipant (batches s bid') (msg_sender e)"
    and j: "j < length (supplyChainParticipants (batches s bid'))"
    "participantAddress (supplyChainParticipants (batches s bid') ! j) = msg_sender e"
    "\<not> hasVerified (supplyChainParticipants (batches s bid') ! j)"
    and s': "s' = verified e bid' loc dat j s"
    by blast
  from inv have bi: "batch_inv (batches s bid') (batchParticipants s bid')"
    by (simp add: registry_inv_def)
  from j(1) have "supplyChainParticipants (batches s bid') ! j \<in> set (supplyChainParticipants (batches s bid'))"
    by simp
  with bi j(2) have "batchParticipants s bid' (msg_sender e) = supplyChainParticipants (batches s bid') ! j"
    by (auto simp: batch_inv_def Let_def)
  with j(3) have nv: "\<not> hasVerified (batchParticipants s bid' (msg_sender e))" by simp
  show ?thesis
    unfolding s' verified_count verified_flags
    using VerifySupplyChainTransfer ip nv by auto
next
  case (ClaimCustomerReward bid')
  with ex show ?thesis by (auto simp: claim_success_iff emit_def)
next
  case (OpenChannel cid ps)
  with ex show ?thesis by (auto simp: openChannel_def emit_def split: if_splits)
next
  case (CloseChannel cid)
  with ex show ?thesis by (auto simp: closeChannel_def emit_def split: if_splits)
next
  case (GrantRole r a')
  with ex show ?thesis by (auto simp: grantRole_def emit_def split: if_splits)
next
  case (RevokeRole r a')
  with ex show ?thesis by (auto simp: revokeRole_def emit_def split: if_splits)
next
  case (RenounceRole r a')
  with ex show ?thesis by (auto simp: renounceRole_def emit_def split: if_splits)
qed

lemma transact_count_step:
  assumes inv: "registry_inv s"
  shows "(verifiedCount (batches (transact s t) bid) = verifiedCount (batches s bid) \<or>
          verifiedCount (batches (transact s t) bid) = verifiedCount (batches s bid) + 1 \<and>
          (\<exists>loc dat sg. snd t = VerifySupplyChainTransfer bid loc dat sg) \<and>
          isParticipant (batches s bid) (msg_sender (fst t)) \<and>
          \<not> hasVerified (batchParticipants s bid (msg_sender (fst t))) \<and>
          hasVerified (batchParticipants (transact s t) bid (msg_sender (fst t)))) \<and>
         (hasVerified (batchParticipants s bid a) \<longrightarrow>
            hasVerified (batchParticipants (transact s t) bid a))"
proof (cases "exec (fst t) (snd t) s")
  case (Inl err)
  then show ?thesis by (simp add: transact_def)
next
  case (Inr s')
  then have "transact s t = s'" by (simp add: transact_def)
  with exec_count_step[OF inv Inr, of bid a] show ?thesis by simp
qed

lemma count_monotone:
  "registry_inv s \<Longrightarrow>
   verifiedCount (batches s bid) \<le> verifiedCount (batches (foldl transact s ts) bid)"
proof (induction ts arbitrary: s)
  case Nil
  then show ?case by simp
next
  case (Cons t ts)
  from transact_count_step[OF Cons.prems, of t bid "msg_sender (fst t)"]
  have "verifiedCount (batches s bid) \<le> verifiedCount (batches (transact s t) bid)" by auto
  also have "\<dots> \<le> verifiedCount (batches (foldl transact (transact s t) ts) bid)"
    by (rule Cons.IH) (rule transact_inv[OF Cons.prems])
  finally show ?case by simp
qed

lemma increments_bound:
  "registry_inv s \<Longrightarrow>
   increments s ts bid a \<le> (if hasVerified (batchParticipants s bid a) then 0 else 1)"
proof (induction ts arbitrary: s)
  case Nil
  then show ?case by simp
next
  case (Cons t ts)
  note step = transact_count_step[OF Cons.prems, of t bid a]
  note ih = Cons.IH[OF transact_inv[OF Cons.prems], of t]
  show ?case
  proof (cases "msg_sender (fst t) = a \<and>
         verifiedCount (batches (transact s t) bid) \<noteq> verifiedCount (batches s bid)")
    case True
    with step have "\<not> hasVerified (batchParticipants s bid a)"
      "hasVerified (batchParticipants (transact s t) bid a)" by auto
    with ih True show ?thesis by simp
  next
    case False
    with step ih show ?thesis by (auto split: if_splits)
  qed
qed

lemma count_bounded:
  "registry_inv s \<Longrightarrow> verifiedCount (batches s bid) \<le> totalParticipants (batches s bid)"
  by (simp add: registry_inv_def batch_inv_def Let_def)

text \<open>
  C8. On every storage the contract can reach, \<open>verifiedCount\<close> of a batch is at most
  its \<open>totalParticipants\<close>; it never decreases along any further transactions; one
  transaction leaves it unchanged or adds exactly one, and adds one only as a
  verification of that batch sent by one of its participants; and over any sequence of
  transactions from the deployment, the transactions sent by one address change the
  counter of a batch at most once, however many verifications that address attempts.
\<close>

theorem verifiedCount_monotone_bounded:
  "verifiedCount (batches (run deployer ts) bid) \<le> totalParticipants (batches (run deployer ts) bid) \<and>
   verifiedCount (batches (run deployer ts) bid) \<le> verifiedCount (batches (run deployer (ts @ ts')) bid) \<and>
   (verifiedCount (batches (transact (run deployer ts) t) bid) =
      verifiedCount (batches (run deployer ts) bid) \<or>
    verifiedCount (batches (transact (run deployer ts) t) bid) =
      verifiedCount (batches (run deployer ts) bid) + 1 \<and>
    (\<exists>loc dat sg. snd t = VerifySupplyChainTransfer bid loc dat sg) \<and>
    isParticipant (batches (run deployer ts) bid) (msg_sender (fst t))) \<and>
   increments (constructor deployer) ts bid a \<le> 1"
proof (intro conjI)
  show "verifiedCount (batches (run deployer ts) bid) \<le> totalParticipants (batches (run deployer ts) bid)"
    by (rule count_bounded) (rule run_inv)
  show "verifiedCount (batches (run deployer ts) bid) \<le> verifiedCount (batches (run deployer (ts @ ts')) bid)"
    using count_monotone[OF run_inv, of deployer ts bid ts'] by (simp add: run_def)
  show "verifiedCount (batches (transact (run deployer ts) t) bid) =
      verifiedCount (batches (run deployer ts) bid) \<or>
    verifiedCount (batches (transact (run deployer ts) t) bid) =
      verifiedCount (batches (run deployer ts) bid) + 1 \<and>
    (\<exists>loc dat sg. snd t = VerifySupplyChainTransfer bid loc dat sg) \<and>
    isParticipant (batches (run deployer ts) bid) (msg_sender (fst t))"
    using transact_count_step[OF run_inv, of deployer ts t bid a] by blast
  show "increments (constructor deployer) ts bid a \<le> 1"
    using increments_bound[OF inv_constructor, of deployer ts bid a] by (simp split: if_splits)
qed

end
